theory Spec2Isabelle
  imports Complex_Main
begin

section \<open>The APEX decision engine\<close>

text \<open>
  A shallow embedding of \<^verbatim>\<open>server/models.py\<close> and \<^verbatim>\<open>server/decision_engine.py\<close>.

  Conventions of the model:
  \<^item> a Python \<^verbatim>\<open>float\<close> is a \<^typ>\<open>real\<close> and a Python \<^verbatim>\<open>int\<close> is an \<^typ>\<open>int\<close>: the
    arithmetic is exact, so the rounding of IEEE doubles is not part of the model; the
    underflow of \<^verbatim>\<open>np.exp\<close> to \<^verbatim>\<open>0.0\<close> is, see \<open>np_exp\<close>, and the range of the doubles
    is added by the second reading of the engine, \<open>decide_f64\<close>;
  \<^item> a \<^verbatim>\<open>Dict[LaneDirection, LaneState]\<close> is an association list in the dictionary's
    iteration order; a dictionary has each key once, which theorems that look a key up
    assume as \<open>distinct (map fst lanes)\<close>;
  \<^item> \<^verbatim>\<open>time.time()\<close> is an input: \<open>now\<close> is the reading taken by the recency decay,
    \<open>stamp\<close> the reading stored in the decision;
  \<^item> the index drawn by \<^verbatim>\<open>np.random.choice\<close> is an input, \<open>draw\<close>;
  \<^item> every exception is a value of \<open>error\<close>.
\<close>

subsection \<open>Data contracts (models.py)\<close>

datatype LaneDirection = NORTH | SOUTH | EAST | WEST

text \<open>The enumeration mixes in \<^verbatim>\<open>str\<close>: a member is its string value.\<close>

fun lane_value :: "LaneDirection \<Rightarrow> string" where
  "lane_value NORTH = ''North''"
| "lane_value SOUTH = ''South''"
| "lane_value EAST = ''East''"
| "lane_value WEST = ''West''"

record VehicleCount =
  car :: int
  bike :: int
  truck :: int
  bus :: int
  emergency :: int
  pedestrians :: int

record VisionOutput =
  vehicleCountByType :: VehicleCount
  avgSpeed :: real
  laneOccupancy :: real
  ambulanceDetected :: bool
  rainDetected :: bool
  confidenceScore :: real

record DownstreamData =
  avgSpeed :: real
  congestionIndex :: real
  ttl :: int

record LaneState =
  direction :: LaneDirection
  vision :: VisionOutput
  downstream :: "DownstreamData option"
  waitTime :: real
  lastGreenTime :: real

record DecisionReason =
  emergency :: bool
  maxWaitViolation :: bool
  downstreamPenalty :: real
  recentGreenDecay :: real
  softmaxProbability :: real
  localTrafficScore :: real

record SignalDecision =
  selectedLane :: LaneDirection
  greenDuration :: real
  decisionConfidence :: real
  reasonTrace :: DecisionReason
  timestamp :: real

datatype error = ValueError | KeyError | IndexError | ValidationError | OverflowError

type_synonym lanes = "(LaneDirection \<times> LaneState) list"
type_synonym priorities = "(LaneDirection \<times> real) list"

text \<open>
  The field constraints of \<^verbatim>\<open>VisionOutput\<close> and \<^verbatim>\<open>DownstreamData\<close>
  (\<^verbatim>\<open>Field(ge=0, le=100)\<close>, \<^verbatim>\<open>Field(ge=0, le=1)\<close>).
\<close>

definition valid_vision :: "VisionOutput \<Rightarrow> bool" where
  "valid_vision v \<longleftrightarrow>
     0 \<le> VisionOutput.avgSpeed v \<and> VisionOutput.avgSpeed v \<le> 100 \<and>
     0 \<le> laneOccupancy v \<and> laneOccupancy v \<le> 1 \<and>
     0 \<le> confidenceScore v \<and> confidenceScore v \<le> 1"

definition valid_downstream :: "DownstreamData \<Rightarrow> bool" where
  "valid_downstream d \<longleftrightarrow>
     0 \<le> DownstreamData.avgSpeed d \<and> DownstreamData.avgSpeed d \<le> 100 \<and>
     0 \<le> congestionIndex d \<and> congestionIndex d \<le> 1"

text \<open>
  The counts of a lane are non-negative. \<^verbatim>\<open>VehicleCount\<close> declares plain \<^verbatim>\<open>int\<close>
  fields; the bound is the one the data model of the specification gives.
\<close>

definition nonneg_counts :: "VehicleCount \<Rightarrow> bool" where
  "nonneg_counts c \<longleftrightarrow>
     0 \<le> car c \<and> 0 \<le> bike c \<and> 0 \<le> truck c \<and> 0 \<le> bus c \<and>
     0 \<le> VehicleCount.emergency c \<and> 0 \<le> pedestrians c"

definition valid_lane :: "LaneState \<Rightarrow> bool" where
  "valid_lane l \<longleftrightarrow>
     nonneg_counts (vehicleCountByType (vision l)) \<and> valid_vision (vision l) \<and>
     (case downstream l of None \<Rightarrow> True | Some d \<Rightarrow> valid_downstream d) \<and>
     0 \<le> waitTime l"

text \<open>
  Constructing a \<^verbatim>\<open>SignalDecision\<close> validates \<^verbatim>\<open>greenDuration\<close> (\<^verbatim>\<open>ge=5, le=120\<close>)
  and \<^verbatim>\<open>decisionConfidence\<close> (\<^verbatim>\<open>ge=0, le=1\<close>) and raises otherwise.
\<close>

definition new_SignalDecision ::
  "LaneDirection \<Rightarrow> real \<Rightarrow> real \<Rightarrow> DecisionReason \<Rightarrow> real \<Rightarrow> error + SignalDecision" where
  "new_SignalDecision lane duration confidence reason stamp =
     (if 5 \<le> duration \<and> duration \<le> 120 \<and> 0 \<le> confidence \<and> confidence \<le> 1
      then Inr \<lparr>selectedLane = lane, greenDuration = duration,
                decisionConfidence = confidence, reasonTrace = reason, timestamp = stamp\<rparr>
      else Inl ValidationError)"

subsection \<open>Constants of the engine\<close>

definition MAX_WAIT_TIME :: real where "MAX_WAIT_TIME = 120"
definition MIN_GREEN :: real where "MIN_GREEN = 5"
definition MAX_GREEN :: real where "MAX_GREEN = 60"
definition RECENT_GREEN_DECAY_WINDOW :: real where "RECENT_GREEN_DECAY_WINDOW = 30"
definition TEMPERATURE :: real where "TEMPERATURE = 7 / 10"
definition RAIN_BIKE_MULTIPLIER :: real where "RAIN_BIKE_MULTIPLIER = 2"

text \<open>\<^verbatim>\<open>VEHICLE_WEIGHTS\<close>, one constant for each key.\<close>

definition weight_car :: real where "weight_car = 1"
definition weight_bike :: real where "weight_bike = 3 / 10"
definition weight_truck :: real where "weight_truck = 3 / 2"
definition weight_bus :: real where "weight_bus = 3 / 2"
definition weight_emergency :: real where "weight_emergency = 10"
definition weight_pedestrians :: real where "weight_pedestrians = 1 / 2"

lemmas engine_constants =
  MAX_WAIT_TIME_def MIN_GREEN_def MAX_GREEN_def RECENT_GREEN_DECAY_WINDOW_def
  TEMPERATURE_def RAIN_BIKE_MULTIPLIER_def weight_car_def weight_bike_def weight_truck_def
  weight_bus_def weight_emergency_def weight_pedestrians_def

subsection \<open>The safety overrides\<close>

text \<open>
  Both checks walk \<^verbatim>\<open>lanes.items()\<close> and return at the first match, \<^verbatim>\<open>None\<close> when
  the loop ends.
\<close>

fun check_emergency :: "lanes \<Rightarrow> LaneDirection option" where
  "check_emergency [] = None"
| "check_emergency ((dir, lane) # rest) =
     (if ambulanceDetected (vision lane) then Some dir else check_emergency rest)"

fun check_max_wait :: "lanes \<Rightarrow> LaneDirection option" where
  "check_max_wait [] = None"
| "check_max_wait ((dir, lane) # rest) =
     (if waitTime lane > MAX_WAIT_TIME then Some dir else check_max_wait rest)"

text \<open>
  \<^verbatim>\<open>if emergency_lane:\<close> tests the truth value of the result: \<^verbatim>\<open>None\<close> is false and
  a direction is true when its string value is not empty.
\<close>

fun truthy :: "LaneDirection option \<Rightarrow> bool" where
  "truthy None = False"
| "truthy (Some d) = (lane_value d \<noteq> [])"

subsection \<open>Scores and priorities\<close>

text \<open>The base weighted sum, with the rain adjustment (the first two statements).\<close>

definition weighted_sum :: "LaneState \<Rightarrow> real" where
  "weighted_sum lane =
     (let vehicles = vehicleCountByType (vision lane);
          score = real_of_int (car vehicles) * weight_car +
                  real_of_int (bike vehicles) * weight_bike +
                  real_of_int (truck vehicles) * weight_truck +
                  real_of_int (bus vehicles) * weight_bus +
                  real_of_int (VehicleCount.emergency vehicles) * weight_emergency +
                  real_of_int (pedestrians vehicles) * weight_pedestrians
      in if rainDetected (vision lane)
         then score + real_of_int (bike vehicles) * weight_bike * (RAIN_BIKE_MULTIPLIER - 1)
         else score)"

definition speed_factor :: "LaneState \<Rightarrow> real" where
  "speed_factor lane = max 0 (1 - VisionOutput.avgSpeed (vision lane) / 60)"

definition calculate_local_traffic_score :: "LaneState \<Rightarrow> real" where
  "calculate_local_traffic_score lane =
     weighted_sum lane * (1 + speed_factor lane) * (1 + laneOccupancy (vision lane))"

definition calculate_downstream_priority :: "LaneState \<Rightarrow> real" where
  "calculate_downstream_priority lane =
     (case downstream lane of
        None \<Rightarrow> 1
      | Some d \<Rightarrow> max (1 / 10) (DownstreamData.avgSpeed d / 60))"

text \<open>The net priority that \<^verbatim>\<open>_calculate_net_priorities\<close> stores for a lane.\<close>

definition net_priority :: "LaneState \<Rightarrow> real" where
  "net_priority lane =
     calculate_local_traffic_score lane * (calculate_downstream_priority lane)\<^sup>2"

fun calculate_net_priorities :: "lanes \<Rightarrow> priorities" where
  "calculate_net_priorities [] = []"
| "calculate_net_priorities ((dir, lane) # rest) =
     (dir, net_priority lane) # calculate_net_priorities rest"

text \<open>\<^verbatim>\<open>lanes[direction]\<close> raises \<^verbatim>\<open>KeyError\<close> on a missing key.\<close>

definition lookup :: "('k \<times> 'v) list \<Rightarrow> 'k \<Rightarrow> error + 'v" where
  "lookup m k = (case map_of m k of None \<Rightarrow> Inl KeyError | Some v \<Rightarrow> Inr v)"

definition decay_of :: "real \<Rightarrow> LaneState \<Rightarrow> real" where
  "decay_of now lane =
     (let time_since_green = now - lastGreenTime lane
      in if time_since_green < RECENT_GREEN_DECAY_WINDOW
         then time_since_green / RECENT_GREEN_DECAY_WINDOW
         else 1)"

fun apply_recent_green_decay :: "real \<Rightarrow> lanes \<Rightarrow> priorities \<Rightarrow> error + priorities" where
  "apply_recent_green_decay now lanes [] = Inr []"
| "apply_recent_green_decay now lanes ((dir, priority) # rest) =
     (case lookup lanes dir of
        Inl e \<Rightarrow> Inl e
      | Inr lane \<Rightarrow>
          (case apply_recent_green_decay now lanes rest of
             Inl e \<Rightarrow> Inl e
           | Inr adjusted \<Rightarrow> Inr ((dir, priority * decay_of now lane) # adjusted)))"

subsection \<open>Softmax and selection\<close>

text \<open>
  \<^verbatim>\<open>np.exp\<close> on a double underflows: the result is \<^verbatim>\<open>0.0\<close> when the exact value is at most
  \<open>2\<^sup>-\<^sup>1\<^sup>0\<^sup>7\<^sup>5\<close>, half the least positive double, that is for an argument of at most
  \<open>- 1075 \<times> ln 2\<close> (about \<open>-745.13\<close>). This is the one effect of the doubles that the model
  writes out, because the softmax reaches it on ordinary loads; above the threshold the
  value is the exact exponential.
\<close>

definition np_exp :: "real \<Rightarrow> real" where
  "np_exp x = (if x \<le> - (1075 * ln 2) then 0 else exp x)"

text \<open>\<^verbatim>\<open>np.max\<close> of an empty array raises \<^verbatim>\<open>ValueError\<close>.\<close>

definition softmax :: "priorities \<Rightarrow> real \<Rightarrow> error + priorities" where
  "softmax ps temperature =
     (let directions = map fst ps;
          values = map (\<lambda>v. v + 1 / 1000000) (map snd ps);
          scaled = map (\<lambda>v. v / temperature) values
      in if scaled = [] then Inl ValueError
         else let m = Max (set scaled);
                  exp_values = map (\<lambda>s. np_exp (s - m)) scaled;
                  total = sum_list exp_values
              in Inr (zip directions (map (\<lambda>e. e / total) exp_values)))"

text \<open>
  \<^verbatim>\<open>np.random.choice(n, p=probs)\<close> raises \<^verbatim>\<open>ValueError\<close> when \<open>n\<close> is 0, when an entry
  of \<open>p\<close> is negative and when \<open>p\<close> does not sum to 1 within the square root of the
  machine epsilon, \<open>2\<^sup>-\<^sup>2\<^sup>6\<close>. The index it returns is the input \<open>draw\<close>;
  \<^verbatim>\<open>directions[selected_idx]\<close> raises \<^verbatim>\<open>IndexError\<close> out of range.
\<close>

definition select_lane :: "nat \<Rightarrow> priorities \<Rightarrow> error + LaneDirection" where
  "select_lane draw probabilities =
     (let directions = map fst probabilities;
          probs = map snd probabilities
      in if directions = [] then Inl ValueError
         else if \<exists>p \<in> set probs. p < 0 then Inl ValueError
         else if \<bar>sum_list probs - 1\<bar> > 1 / 2 ^ 26 then Inl ValueError
         else if draw < length directions then Inr (directions ! draw)
         else Inl IndexError)"

subsection \<open>Green time and the decision\<close>

definition calculate_green_duration :: "LaneState \<Rightarrow> real" where
  "calculate_green_duration lane =
     (let local_score = calculate_local_traffic_score lane;
          normalized = min (local_score / 50) 1;
          duration = MIN_GREEN + (MAX_GREEN - MIN_GREEN) * normalized;
          duration = duration * confidenceScore (vision lane)
      in max MIN_GREEN (min MAX_GREEN duration))"

definition create_decision ::
  "real \<Rightarrow> LaneDirection \<Rightarrow> real \<Rightarrow> lanes \<Rightarrow> priorities \<Rightarrow> priorities \<Rightarrow> error + SignalDecision" where
  "create_decision stamp lane duration lanes ps probabilities =
     (case lookup lanes lane of
        Inl e \<Rightarrow> Inl e
      | Inr state \<Rightarrow>
          (case lookup probabilities lane of
             Inl e \<Rightarrow> Inl e
           | Inr p \<Rightarrow>
               new_SignalDecision lane duration p
                 \<lparr>emergency = False, maxWaitViolation = False,
                  downstreamPenalty = 1 - calculate_downstream_priority state,
                  recentGreenDecay = 1,
                  softmaxProbability = p,
                  localTrafficScore = calculate_local_traffic_score state\<rparr>
                 stamp))"

definition create_emergency_decision ::
  "real \<Rightarrow> LaneDirection \<Rightarrow> lanes \<Rightarrow> error + SignalDecision" where
  "create_emergency_decision stamp lane lanes =
     new_SignalDecision lane MAX_GREEN 1
       \<lparr>emergency = True, maxWaitViolation = False, downstreamPenalty = 0,
        recentGreenDecay = 1, softmaxProbability = 1, localTrafficScore = 999\<rparr>
       stamp"

definition create_forced_decision ::
  "real \<Rightarrow> LaneDirection \<Rightarrow> lanes \<Rightarrow> string \<Rightarrow> error + SignalDecision" where
  "create_forced_decision stamp lane lanes reason_type =
     (case lookup lanes lane of
        Inl e \<Rightarrow> Inl e
      | Inr state \<Rightarrow>
          new_SignalDecision lane MIN_GREEN 1
            \<lparr>emergency = False,
             maxWaitViolation = (reason_type = ''max_wait_violation''),
             downstreamPenalty = 0, recentGreenDecay = 1, softmaxProbability = 1,
             localTrafficScore = calculate_local_traffic_score state\<rparr>
            stamp)"

text \<open>The adjusted priorities that enter the softmax (steps 3 and 4 of the pipeline).\<close>

definition adjusted_priorities :: "real \<Rightarrow> lanes \<Rightarrow> error + priorities" where
  "adjusted_priorities now lanes =
     apply_recent_green_decay now lanes (calculate_net_priorities lanes)"

definition decide :: "real \<Rightarrow> real \<Rightarrow> nat \<Rightarrow> lanes \<Rightarrow> error + SignalDecision" where
  "decide now stamp draw lanes =
     (let emergency_lane = check_emergency lanes
      in if truthy emergency_lane
         then create_emergency_decision stamp (the emergency_lane) lanes
         else let max_wait_lane = check_max_wait lanes
              in if truthy max_wait_lane
                 then create_forced_decision stamp (the max_wait_lane) lanes
                        ''max_wait_violation''
                 else (case adjusted_priorities now lanes of
                         Inl e \<Rightarrow> Inl e
                       | Inr ps \<Rightarrow>
                           (case softmax ps TEMPERATURE of
                              Inl e \<Rightarrow> Inl e
                            | Inr probabilities \<Rightarrow>
                                (case select_lane draw probabilities of
                                   Inl e \<Rightarrow> Inl e
                                 | Inr selected_lane \<Rightarrow>
                                     (case lookup lanes selected_lane of
                                        Inl e \<Rightarrow> Inl e
                                      | Inr state \<Rightarrow>
                                          create_decision stamp selected_lane
                                            (calculate_green_duration state)
                                            lanes ps probabilities)))))"

subsection \<open>The engine on doubles\<close>

text \<open>
  A second reading of the same code, for the question whether a run raises: every
  arithmetic operation is followed by the test whether its exact result still fits a
  double. An outcome is a returned value, a raised exception, or \<open>Not_finite\<close>: a double
  of the run has become \<^verbatim>\<open>inf\<close>. From there Python carries \<^verbatim>\<open>inf\<close> and \<^verbatim>\<open>nan\<close> on
  (a \<^verbatim>\<open>nan\<close> among the probabilities makes \<^verbatim>\<open>np.random.choice\<close> raise \<^verbatim>\<open>ValueError\<close>), and
  the model does not follow the run further. Rounding stays outside the model, and a
  \<^verbatim>\<open>nan\<close> arises in this code only from an \<^verbatim>\<open>inf\<close>.

  A double overflows when the exact result reaches \<open>2\<^sup>1\<^sup>0\<^sup>2\<^sup>4 - 2\<^sup>9\<^sup>7\<^sup>0\<close>, halfway between the
  largest double and \<open>2\<^sup>1\<^sup>0\<^sup>2\<^sup>4\<close>. An \<^verbatim>\<open>int * float\<close> first converts the integer, which
  raises \<^verbatim>\<open>OverflowError\<close> from the same bound on.
\<close>

datatype 'a outcome = Returns 'a | Raises error | Not_finite

definition DBL_LIMIT :: real where
  "DBL_LIMIT = 2 ^ 1024 - 2 ^ 970"

definition dbl :: "real \<Rightarrow> real outcome" where
  "dbl x = (if \<bar>x\<bar> < DBL_LIMIT then Returns x else Not_finite)"

definition float_of_int :: "int \<Rightarrow> real outcome" where
  "float_of_int n =
     (if \<bar>real_of_int n\<bar> < DBL_LIMIT then Returns (real_of_int n) else Raises OverflowError)"

fun then_do :: "'a outcome \<Rightarrow> ('a \<Rightarrow> 'b outcome) \<Rightarrow> 'b outcome" where
  "then_do (Returns x) f = f x"
| "then_do (Raises e) f = Raises e"
| "then_do Not_finite f = Not_finite"

definition int_times_float :: "int \<Rightarrow> real \<Rightarrow> real outcome" where
  "int_times_float n w = then_do (float_of_int n) (\<lambda>x. dbl (x * w))"

definition calculate_local_traffic_score_f64 :: "LaneState \<Rightarrow> real outcome" where
  "calculate_local_traffic_score_f64 lane =
     (let vehicles = vehicleCountByType (vision lane) in
      then_do (int_times_float (car vehicles) weight_car) (\<lambda>cars.
      then_do (int_times_float (bike vehicles) weight_bike) (\<lambda>bikes.
      then_do (dbl (cars + bikes)) (\<lambda>score.
      then_do (int_times_float (truck vehicles) weight_truck) (\<lambda>trucks.
      then_do (dbl (score + trucks)) (\<lambda>score.
      then_do (int_times_float (bus vehicles) weight_bus) (\<lambda>buses.
      then_do (dbl (score + buses)) (\<lambda>score.
      then_do (int_times_float (VehicleCount.emergency vehicles) weight_emergency) (\<lambda>emergencies.
      then_do (dbl (score + emergencies)) (\<lambda>score.
      then_do (int_times_float (pedestrians vehicles) weight_pedestrians) (\<lambda>walkers.
      then_do (dbl (score + walkers)) (\<lambda>score.
      then_do (if rainDetected (vision lane)
               then then_do (int_times_float (bike vehicles) weight_bike) (\<lambda>bikes.
                    then_do (dbl (bikes * (RAIN_BIKE_MULTIPLIER - 1))) (\<lambda>extra.
                    dbl (score + extra)))
               else Returns score) (\<lambda>score.
      then_do (dbl (VisionOutput.avgSpeed (vision lane) / 60)) (\<lambda>ratio.
      then_do (dbl (1 - ratio)) (\<lambda>slack.
      then_do (dbl (1 + max 0 slack)) (\<lambda>factor.
      then_do (dbl (score * factor)) (\<lambda>score.
      then_do (dbl (1 + laneOccupancy (vision lane))) (\<lambda>factor.
      dbl (score * factor)))))))))))))))))))"

text \<open>\<^verbatim>\<open>x ** 2\<close> on a Python float raises \<^verbatim>\<open>OverflowError\<close> when the result overflows.\<close>

definition float_square :: "real \<Rightarrow> real outcome" where
  "float_square x = (if \<bar>x\<^sup>2\<bar> < DBL_LIMIT then Returns (x\<^sup>2) else Raises OverflowError)"

text \<open>A NumPy division: a zero divisor gives \<^verbatim>\<open>inf\<close> or \<^verbatim>\<open>nan\<close>, not an exception.\<close>

definition np_divide :: "real \<Rightarrow> real \<Rightarrow> real outcome" where
  "np_divide a b = (if b = 0 then Not_finite else dbl (a / b))"

definition lift :: "error + 'a \<Rightarrow> 'a outcome" where
  "lift r = (case r of Inl e \<Rightarrow> Raises e | Inr v \<Rightarrow> Returns v)"

fun map_outcome :: "('a \<Rightarrow> 'b outcome) \<Rightarrow> 'a list \<Rightarrow> 'b list outcome" where
  "map_outcome f [] = Returns []"
| "map_outcome f (x # xs) =
     then_do (f x) (\<lambda>y. then_do (map_outcome f xs) (\<lambda>ys. Returns (y # ys)))"

fun np_sum :: "real \<Rightarrow> real list \<Rightarrow> real outcome" where
  "np_sum acc [] = Returns acc"
| "np_sum acc (x # xs) = then_do (dbl (acc + x)) (\<lambda>acc. np_sum acc xs)"

definition calculate_downstream_priority_f64 :: "LaneState \<Rightarrow> real outcome" where
  "calculate_downstream_priority_f64 lane =
     (case downstream lane of
        None \<Rightarrow> Returns 1
      | Some d \<Rightarrow>
          then_do (dbl (DownstreamData.avgSpeed d / 60)) (\<lambda>ratio.
          Returns (max (1 / 10) ratio)))"

fun calculate_net_priorities_f64 :: "lanes \<Rightarrow> priorities outcome" where
  "calculate_net_priorities_f64 [] = Returns []"
| "calculate_net_priorities_f64 ((dir, lane) # rest) =
     then_do (calculate_local_traffic_score_f64 lane) (\<lambda>local_score.
     then_do (calculate_downstream_priority_f64 lane) (\<lambda>downstream_priority.
     then_do (float_square downstream_priority) (\<lambda>squared.
     then_do (dbl (local_score * squared)) (\<lambda>net.
     then_do (calculate_net_priorities_f64 rest) (\<lambda>priorities.
     Returns ((dir, net) # priorities))))))"

fun apply_recent_green_decay_f64 :: "real \<Rightarrow> lanes \<Rightarrow> priorities \<Rightarrow> priorities outcome" where
  "apply_recent_green_decay_f64 now lanes [] = Returns []"
| "apply_recent_green_decay_f64 now lanes ((dir, priority) # rest) =
     then_do (lift (lookup lanes dir)) (\<lambda>lane.
     then_do (dbl (now - lastGreenTime lane)) (\<lambda>time_since_green.
     then_do (if time_since_green < RECENT_GREEN_DECAY_WINDOW
              then dbl (time_since_green / RECENT_GREEN_DECAY_WINDOW)
              else Returns 1) (\<lambda>decay.
     then_do (dbl (priority * decay)) (\<lambda>adjusted.
     then_do (apply_recent_green_decay_f64 now lanes rest) (\<lambda>others.
     Returns ((dir, adjusted) # others))))))"

definition softmax_f64 :: "priorities \<Rightarrow> real \<Rightarrow> priorities outcome" where
  "softmax_f64 ps temperature =
     (let directions = map fst ps in
      then_do (map_outcome (\<lambda>v. dbl (v + 1 / 1000000)) (map snd ps)) (\<lambda>values.
      then_do (map_outcome (\<lambda>v. dbl (v / temperature)) values) (\<lambda>scaled.
      if scaled = [] then Raises ValueError
      else let m = Max (set scaled) in
           then_do (map_outcome (\<lambda>s. dbl (s - m)) scaled) (\<lambda>shifted.
           then_do (map_outcome (\<lambda>s. dbl (np_exp s)) shifted) (\<lambda>exp_values.
           then_do (np_sum 0 exp_values) (\<lambda>total.
           then_do (map_outcome (\<lambda>e. np_divide e total) exp_values) (\<lambda>probabilities.
           Returns (zip directions probabilities))))))))"

definition calculate_green_duration_f64 :: "LaneState \<Rightarrow> real outcome" where
  "calculate_green_duration_f64 lane =
     then_do (calculate_local_traffic_score_f64 lane) (\<lambda>local_score.
     then_do (dbl (local_score / 50)) (\<lambda>ratio.
     then_do (dbl ((MAX_GREEN - MIN_GREEN) * min ratio 1)) (\<lambda>span.
     then_do (dbl (MIN_GREEN + span)) (\<lambda>duration.
     then_do (dbl (duration * confidenceScore (vision lane))) (\<lambda>duration.
     Returns (max MIN_GREEN (min MAX_GREEN duration)))))))"

definition create_decision_f64 ::
  "real \<Rightarrow> LaneDirection \<Rightarrow> real \<Rightarrow> lanes \<Rightarrow> priorities \<Rightarrow> priorities \<Rightarrow> SignalDecision outcome" where
  "create_decision_f64 stamp lane duration lanes ps probabilities =
     then_do (lift (lookup lanes lane)) (\<lambda>state.
     then_do (calculate_downstream_priority_f64 state) (\<lambda>factor.
     then_do (dbl (1 - factor)) (\<lambda>penalty.
     then_do (lift (lookup probabilities lane)) (\<lambda>p.
     then_do (calculate_local_traffic_score_f64 state) (\<lambda>score.
     lift (new_SignalDecision lane duration p
             \<lparr>emergency = False, maxWaitViolation = False,
              downstreamPenalty = penalty,
              recentGreenDecay = 1,
              softmaxProbability = p,
              localTrafficScore = score\<rparr>
             stamp))))))"

definition create_forced_decision_f64 ::
  "real \<Rightarrow> LaneDirection \<Rightarrow> lanes \<Rightarrow> string \<Rightarrow> SignalDecision outcome" where
  "create_forced_decision_f64 stamp lane lanes reason_type =
     then_do (lift (lookup lanes lane)) (\<lambda>state.
     then_do (calculate_local_traffic_score_f64 state) (\<lambda>score.
     lift (new_SignalDecision lane MIN_GREEN 1
             \<lparr>emergency = False,
              maxWaitViolation = (reason_type = ''max_wait_violation''),
              downstreamPenalty = 0, recentGreenDecay = 1, softmaxProbability = 1,
              localTrafficScore = score\<rparr>
             stamp)))"

definition decide_f64 :: "real \<Rightarrow> real \<Rightarrow> nat \<Rightarrow> lanes \<Rightarrow> SignalDecision outcome" where
  "decide_f64 now stamp draw lanes =
     (let emergency_lane = check_emergency lanes
      in if truthy emergency_lane
         then lift (create_emergency_decision stamp (the emergency_lane) lanes)
         else let max_wait_lane = check_max_wait lanes
              in if truthy max_wait_lane
                 then create_forced_decision_f64 stamp (the max_wait_lane) lanes
                        ''max_wait_violation''
                 else
                   then_do (calculate_net_priorities_f64 lanes) (\<lambda>priorities.
                   then_do (apply_recent_green_decay_f64 now lanes priorities) (\<lambda>priorities.
                   then_do (softmax_f64 priorities TEMPERATURE) (\<lambda>probabilities.
                   then_do (lift (select_lane draw probabilities)) (\<lambda>selected_lane.
                   then_do (lift (lookup lanes selected_lane)) (\<lambda>state.
                   then_do (calculate_green_duration_f64 state) (\<lambda>green_duration.
                   create_decision_f64 stamp selected_lane green_duration
                     lanes priorities probabilities)))))))"

text \<open>Magnitudes: \<open>mag k x\<close> bounds \<open>x\<close> by \<open>2\<^sup>k\<close>. A steady lane lies in the validated
  ranges, its counts are at most \<open>2\<^sup>3\<^sup>0\<^sup>0\<close>, and its last green is within \<open>2\<^sup>3\<^sup>0\<^sup>0\<close> seconds
  of the current time.\<close>

definition mag :: "nat \<Rightarrow> real \<Rightarrow> bool" where
  "mag k x \<longleftrightarrow> \<bar>x\<bar> \<le> 2 ^ k"

definition moderate_counts :: "VehicleCount \<Rightarrow> bool" where
  "moderate_counts c \<longleftrightarrow>
     \<bar>car c\<bar> \<le> 2 ^ 300 \<and> \<bar>bike c\<bar> \<le> 2 ^ 300 \<and> \<bar>truck c\<bar> \<le> 2 ^ 300 \<and> \<bar>bus c\<bar> \<le> 2 ^ 300 \<and>
     \<bar>VehicleCount.emergency c\<bar> \<le> 2 ^ 300 \<and> \<bar>pedestrians c\<bar> \<le> 2 ^ 300"

definition moderate_lane :: "real \<Rightarrow> LaneState \<Rightarrow> bool" where
  "moderate_lane now lane \<longleftrightarrow>
     moderate_counts (vehicleCountByType (vision lane)) \<and>
     \<bar>now - lastGreenTime lane\<bar> \<le> 2 ^ 300"

definition steady_lane :: "real \<Rightarrow> LaneState \<Rightarrow> bool" where
  "steady_lane now lane \<longleftrightarrow> valid_lane lane \<and> moderate_lane now lane"

subsection \<open>Example snapshots\<close>

definition empty_counts :: VehicleCount where
  "empty_counts = \<lparr>car = 0, bike = 0, truck = 0, bus = 0, emergency = 0, pedestrians = 0\<rparr>"

definition empty_lane :: "LaneDirection \<Rightarrow> LaneState" where
  "empty_lane d =
     \<lparr>direction = d,
      vision = \<lparr>vehicleCountByType = empty_counts, avgSpeed = 0, laneOccupancy = 0,
                ambulanceDetected = False, rainDetected = False, confidenceScore = 95 / 100\<rparr>,
      downstream = None, waitTime = 0, lastGreenTime = 0\<rparr>"

definition ambulance_lane :: "LaneDirection \<Rightarrow> LaneState" where
  "ambulance_lane d = (empty_lane d)\<lparr>vision := (vision (empty_lane d))\<lparr>ambulanceDetected := True\<rparr>\<rparr>"

definition waiting_lane :: "LaneDirection \<Rightarrow> real \<Rightarrow> LaneState" where
  "waiting_lane d w = (empty_lane d)\<lparr>waitTime := w\<rparr>"

definition two_ambulances :: lanes where
  "two_ambulances =
     [(NORTH, empty_lane NORTH), (SOUTH, ambulance_lane SOUTH),
      (EAST, ambulance_lane EAST), (WEST, waiting_lane WEST 500)]"

definition set_rain :: "bool \<Rightarrow> LaneState \<Rightarrow> LaneState" where
  "set_rain r lane = lane\<lparr>vision := (vision lane)\<lparr>rainDetected := r\<rparr>\<rparr>"

definition set_car_count :: "int \<Rightarrow> LaneState \<Rightarrow> LaneState" where
  "set_car_count n lane =
     lane\<lparr>vision := (vision lane)\<lparr>vehicleCountByType :=
       (vehicleCountByType (vision lane))\<lparr>car := n\<rparr>\<rparr>\<rparr>"

definition set_emergency_count :: "int \<Rightarrow> LaneState \<Rightarrow> LaneState" where
  "set_emergency_count n lane =
     lane\<lparr>vision := (vision lane)\<lparr>vehicleCountByType :=
       (vehicleCountByType (vision lane))\<lparr>VehicleCount.emergency := n\<rparr>\<rparr>\<rparr>"

definition busy_lane :: "LaneDirection \<Rightarrow> LaneState" where
  "busy_lane d =
     \<lparr>direction = d,
      vision = \<lparr>vehicleCountByType =
                  \<lparr>car = 20, bike = 10, truck = 1, bus = 2, emergency = 3, pedestrians = 4\<rparr>,
                avgSpeed = 0, laneOccupancy = 1,
                ambulanceDetected = False, rainDetected = True, confidenceScore = 95 / 100\<rparr>,
      downstream = Some \<lparr>avgSpeed = 100, congestionIndex = 0, ttl = 60\<rparr>,
      waitTime = 130, lastGreenTime = 0\<rparr>"


definition fast_exit_lane :: "LaneDirection \<Rightarrow> LaneState" where
  "fast_exit_lane d =
     (empty_lane d)\<lparr>downstream := Some \<lparr>avgSpeed = 100, congestionIndex = 0, ttl = 60\<rparr>\<rparr>"

definition jammed_exit_lane :: "LaneDirection \<Rightarrow> LaneState" where
  "jammed_exit_lane d =
     (empty_lane d)\<lparr>downstream := Some \<lparr>avgSpeed = 3, congestionIndex = 1, ttl = 60\<rparr>\<rparr>"

definition cyclists_lane :: "LaneDirection \<Rightarrow> LaneState" where
  "cyclists_lane d =
     \<lparr>direction = d,
      vision = \<lparr>vehicleCountByType =
                  \<lparr>car = 0, bike = 10, truck = 0, bus = 0, emergency = 0, pedestrians = 0\<rparr>,
                avgSpeed = 0, laneOccupancy = 1,
                ambulanceDetected = False, rainDetected = False, confidenceScore = 95 / 100\<rparr>,
      downstream = None, waitTime = 0, lastGreenTime = 0\<rparr>"

definition unflagged_emergency :: lanes where
  "unflagged_emergency =
     [(NORTH, empty_lane NORTH), (SOUTH, empty_lane SOUTH),
      (EAST, set_emergency_count 2 (waiting_lane EAST 125)), (WEST, empty_lane WEST)]"

definition decay_snapshot :: lanes where
  "decay_snapshot =
     [(NORTH, (busy_lane NORTH)\<lparr>waitTime := 0, lastGreenTime := 100\<rparr>),
      (SOUTH, (busy_lane SOUTH)\<lparr>waitTime := 15, lastGreenTime := 85\<rparr>),
      (EAST, (busy_lane EAST)\<lparr>waitTime := 30, lastGreenTime := 70\<rparr>),
      (WEST, (busy_lane WEST)\<lparr>waitTime := 90, lastGreenTime := 10\<rparr>)]"

definition idle_snapshot :: lanes where
  "idle_snapshot =
     [(NORTH, empty_lane NORTH), (SOUTH, empty_lane SOUTH),
      (EAST, empty_lane EAST), (WEST, empty_lane WEST)]"

definition congested_snapshot :: lanes where
  "congested_snapshot =
     [(NORTH, empty_lane NORTH), (SOUTH, (busy_lane SOUTH)\<lparr>waitTime := 40\<rparr>),
      (EAST, empty_lane EAST), (WEST, empty_lane WEST)]"

definition astronomic_snapshot :: lanes where
  "astronomic_snapshot =
     [(NORTH, set_car_count (2 ^ 1024) (empty_lane NORTH)), (SOUTH, empty_lane SOUTH),
      (EAST, empty_lane EAST), (WEST, empty_lane WEST)]"

definition far_future_lane :: "LaneDirection \<Rightarrow> LaneState" where
  "far_future_lane d = (busy_lane d)\<lparr>waitTime := 40, lastGreenTime := 2 ^ 1020\<rparr>"

definition far_future_snapshot :: lanes where
  "far_future_snapshot =
     [(NORTH, far_future_lane NORTH), (SOUTH, far_future_lane SOUTH),
      (EAST, far_future_lane EAST), (WEST, far_future_lane WEST)]"

section \<open>Properties\<close>

subsection \<open>Auxiliary facts\<close>

lemma lane_value_nonempty [simp]: "lane_value d \<noteq> []"
  by (cases d) simp_all

lemma check_emergency_first:
  assumes "\<forall>(d', l') \<in> set pre. \<not> ambulanceDetected (vision l')"
    and "ambulanceDetected (vision l)"
  shows "check_emergency (pre @ (d, l) # post) = Some d"
  using assms by (induction pre) auto

lemma check_emergency_None:
  "check_emergency lanes = None \<longleftrightarrow> (\<forall>x \<in> set lanes. \<not> ambulanceDetected (vision (snd x)))"
  by (induction lanes rule: check_emergency.induct) simp_all


lemma check_max_wait_None:
  "check_max_wait lanes = None \<longleftrightarrow> (\<forall>x \<in> set lanes. \<not> waitTime (snd x) > MAX_WAIT_TIME)"
  by (induction lanes rule: check_max_wait.induct) simp_all

lemma check_max_wait_lookup:
  "distinct (map fst lanes) \<Longrightarrow> check_max_wait lanes = Some d \<Longrightarrow> \<exists>l. map_of lanes d = Some l \<and> waitTime l > MAX_WAIT_TIME"
proof (induction lanes)
  case Nil
  then show ?case by simp
next
  case (Cons x lanes)
  obtain d' l' where x: "x = (d', l')" by (cases x)
  from Cons show ?case
    unfolding x by (cases "waitTime l' > MAX_WAIT_TIME") (force simp: image_iff)+
qed

text \<open>
  Claim C1. Whenever some lane of the snapshot has \<open>ambulanceDetected\<close> set, \<open>decide\<close>
  returns the emergency decision for the first such lane in iteration order: green for
  \<open>MAX_GREEN = 60\<close> seconds, confidence 1, and a reason trace with \<open>emergency = True\<close>,
  \<open>localTrafficScore = 999\<close> and \<open>softmaxProbability = 1\<close>, whatever the other lanes hold.
\<close>

theorem emergency_precedence:
  assumes "\<exists>(d, l) \<in> set lanes. ambulanceDetected (vision l)"
  shows "\<exists>pre d l post.
           lanes = pre @ (d, l) # post \<and>
           (\<forall>(d', l') \<in> set pre. \<not> ambulanceDetected (vision l')) \<and>
           ambulanceDetected (vision l) \<and>
           decide now stamp draw lanes =
             Inr \<lparr>selectedLane = d, greenDuration = 60, decisionConfidence = 1,
                  reasonTrace = \<lparr>emergency = True, maxWaitViolation = False,
                                 downstreamPenalty = 0, recentGreenDecay = 1,
                                 softmaxProbability = 1, localTrafficScore = 999\<rparr>,
                  timestamp = stamp\<rparr>"
proof -
  from assms have "\<exists>x \<in> set lanes. ambulanceDetected (vision (snd x))"
    by (simp add: case_prod_beta)
  then obtain pre x post where split: "lanes = pre @ x # post"
    and flag: "ambulanceDetected (vision (snd x))"
    and first: "\<forall>y \<in> set pre. \<not> ambulanceDetected (vision (snd y))"
    using split_list_first_prop [of lanes "\<lambda>x. ambulanceDetected (vision (snd x))"] by blast
  obtain d l where x: "x = (d, l)" by (cases x)
  from first have pre: "\<forall>(d', l') \<in> set pre. \<not> ambulanceDetected (vision l')"
    by auto
  from flag x have l: "ambulanceDetected (vision l)" by simp
  have "check_emergency lanes = Some d"
    unfolding split x by (rule check_emergency_first [OF pre l])
  then have "decide now stamp draw lanes =
             Inr \<lparr>selectedLane = d, greenDuration = 60, decisionConfidence = 1,
                  reasonTrace = \<lparr>emergency = True, maxWaitViolation = False,
                                 downstreamPenalty = 0, recentGreenDecay = 1,
                                 softmaxProbability = 1, localTrafficScore = 999\<rparr>,
                  timestamp = stamp\<rparr>"
    by (simp add: decide_def create_emergency_decision_def new_SignalDecision_def MAX_GREEN_def)
  with split x pre l show ?thesis by blast
qed

theorem emergency_precedence_witness:
  "(\<exists>(d, l) \<in> set two_ambulances. ambulanceDetected (vision l)) \<and>
   decide 100 101 3 two_ambulances =
     Inr \<lparr>selectedLane = SOUTH, greenDuration = 60, decisionConfidence = 1,
          reasonTrace = \<lparr>emergency = True, maxWaitViolation = False,
                         downstreamPenalty = 0, recentGreenDecay = 1,
                         softmaxProbability = 1, localTrafficScore = 999\<rparr>,
          timestamp = 101\<rparr>"
  using emergency_precedence [of two_ambulances 100 101 3]
  by (simp add: two_ambulances_def ambulance_lane_def empty_lane_def waiting_lane_def
      decide_def create_emergency_decision_def new_SignalDecision_def MAX_GREEN_def)




lemma weighted_sum_nonneg:
  assumes "nonneg_counts (vehicleCountByType (vision lane))"
  shows "0 \<le> weighted_sum lane"
  using assms
  by (simp add: weighted_sum_def nonneg_counts_def engine_constants Let_def)

text \<open>
  Claim C5. The local traffic score is the weighted sum of the six counts (car 1.0, bike 0.3,
  truck 1.5, bus 1.5, emergency 10.0, pedestrians 0.5), plus the rain adjustment of the bikes
  when rain is detected, times \<open>1 + max 0 (1 - avgSpeed / 60)\<close>, times \<open>1 + laneOccupancy\<close>.
  It is non-negative on a lane within the validated ranges, and 0 when all counts are 0.
\<close>

theorem local_traffic_score_formula:
  "calculate_local_traffic_score lane =
     (real_of_int (car (vehicleCountByType (vision lane))) * 1 +
      real_of_int (bike (vehicleCountByType (vision lane))) * (3 / 10) +
      real_of_int (truck (vehicleCountByType (vision lane))) * (3 / 2) +
      real_of_int (bus (vehicleCountByType (vision lane))) * (3 / 2) +
      real_of_int (VehicleCount.emergency (vehicleCountByType (vision lane))) * 10 +
      real_of_int (pedestrians (vehicleCountByType (vision lane))) * (1 / 2) +
      (if rainDetected (vision lane)
       then real_of_int (bike (vehicleCountByType (vision lane))) * (3 / 10) * (2 - 1)
       else 0))
     * (1 + max 0 (1 - VisionOutput.avgSpeed (vision lane) / 60))
     * (1 + laneOccupancy (vision lane)) \<and>
   (valid_lane lane \<longrightarrow> 0 \<le> calculate_local_traffic_score lane) \<and>
   (car (vehicleCountByType (vision lane)) = 0 \<and>
    bike (vehicleCountByType (vision lane)) = 0 \<and>
    truck (vehicleCountByType (vision lane)) = 0 \<and>
    bus (vehicleCountByType (vision lane)) = 0 \<and>
    VehicleCount.emergency (vehicleCountByType (vision lane)) = 0 \<and>
    pedestrians (vehicleCountByType (vision lane)) = 0
    \<longrightarrow> calculate_local_traffic_score lane = 0)"
proof (intro conjI impI)
  show "calculate_local_traffic_score lane =
     (real_of_int (car (vehicleCountByType (vision lane))) * 1 +
      real_of_int (bike (vehicleCountByType (vision lane))) * (3 / 10) +
      real_of_int (truck (vehicleCountByType (vision lane))) * (3 / 2) +
      real_of_int (bus (vehicleCountByType (vision lane))) * (3 / 2) +
      real_of_int (VehicleCount.emergency (vehicleCountByType (vision lane))) * 10 +
      real_of_int (pedestrians (vehicleCountByType (vision lane))) * (1 / 2) +
      (if rainDetected (vision lane)
       then real_of_int (bike (vehicleCountByType (vision lane))) * (3 / 10) * (2 - 1)
       else 0))
     * (1 + max 0 (1 - VisionOutput.avgSpeed (vision lane) / 60))
     * (1 + laneOccupancy (vision lane))"
    by (simp add: calculate_local_traffic_score_def weighted_sum_def speed_factor_def
        engine_constants Let_def)
next
  assume valid: "valid_lane lane"
  then have "0 \<le> weighted_sum lane"
    by (simp add: valid_lane_def weighted_sum_nonneg)
  moreover have "0 \<le> 1 + speed_factor lane"
    by (simp add: speed_factor_def)
  moreover from valid have "0 \<le> 1 + laneOccupancy (vision lane)"
    by (simp add: valid_lane_def valid_vision_def)
  ultimately show "0 \<le> calculate_local_traffic_score lane"
    by (simp add: calculate_local_traffic_score_def)
next
  assume "car (vehicleCountByType (vision lane)) = 0 \<and>
    bike (vehicleCountByType (vision lane)) = 0 \<and>
    truck (vehicleCountByType (vision lane)) = 0 \<and>
    bus (vehicleCountByType (vision lane)) = 0 \<and>
    VehicleCount.emergency (vehicleCountByType (vision lane)) = 0 \<and>
    pedestrians (vehicleCountByType (vision lane)) = 0"
  then have "weighted_sum lane = 0"
    by (simp add: weighted_sum_def)
  then show "calculate_local_traffic_score lane = 0"
    by (simp add: calculate_local_traffic_score_def)
qed

theorem local_traffic_score_formula_witness:
  "valid_lane (busy_lane SOUTH) \<and>
   calculate_local_traffic_score (busy_lane SOUTH) = 250 \<and>
   0 \<le> calculate_local_traffic_score (busy_lane SOUTH) \<and>
   valid_lane (empty_lane NORTH) \<and>
   car (vehicleCountByType (vision (empty_lane NORTH))) = 0 \<and>
   bike (vehicleCountByType (vision (empty_lane NORTH))) = 0 \<and>
   truck (vehicleCountByType (vision (empty_lane NORTH))) = 0 \<and>
   bus (vehicleCountByType (vision (empty_lane NORTH))) = 0 \<and>
   VehicleCount.emergency (vehicleCountByType (vision (empty_lane NORTH))) = 0 \<and>
   pedestrians (vehicleCountByType (vision (empty_lane NORTH))) = 0 \<and>
   calculate_local_traffic_score (empty_lane NORTH) = 0"
  using local_traffic_score_formula [of "busy_lane SOUTH"]
    local_traffic_score_formula [of "empty_lane NORTH"]
  by (simp add: busy_lane_def empty_lane_def empty_counts_def valid_lane_def valid_vision_def
      valid_downstream_def nonneg_counts_def)

text \<open>
  The downstream priority factor is 1 without downstream data and
  \<open>max 0.1 (avgSpeed / 60)\<close> with it: never below the floor \<open>0.1\<close>, and at most 1 exactly
  when the downstream speed is at most 60.
\<close>

lemma downstream_priority_floor:
  "calculate_downstream_priority lane =
     (case downstream lane of
        None \<Rightarrow> 1
      | Some d \<Rightarrow> max (1 / 10) (DownstreamData.avgSpeed d / 60))"
  "1 / 10 \<le> calculate_downstream_priority lane"
  "downstream lane = Some d \<Longrightarrow>
     calculate_downstream_priority lane \<le> 1 \<longleftrightarrow> DownstreamData.avgSpeed d \<le> 60"
  by (auto simp: calculate_downstream_priority_def split: option.splits)

text \<open>
  Claim C6: the factor is 1 without downstream data, \<open>max 0.1 (avgSpeed / 60)\<close> with it, and
  lies in \<open>[0.1, 1.0]\<close> for every downstream speed in the validated range \<open>[0, 100]\<close>. The
  code has the floor but no cap, although its comment normalises 60 km/h to 1.0 (free flow)
  and the local speed factor clamps above 60: at the downstream speed 100, inside the
  validated range, the factor is \<open>5 / 3\<close> and the \<open>downstreamPenalty\<close> of the reason trace,
  \<open>1 - factor\<close>, is negative.
\<close>

theorem downstream_priority_exceeds_one:
  "valid_lane (fast_exit_lane NORTH) \<and>
   downstream (fast_exit_lane NORTH) = Some \<lparr>avgSpeed = 100, congestionIndex = 0, ttl = 60\<rparr> \<and>
   calculate_downstream_priority (fast_exit_lane NORTH) = 5 / 3 \<and>
   \<not> calculate_downstream_priority (fast_exit_lane NORTH) \<le> 1 \<and>
   1 - calculate_downstream_priority (fast_exit_lane NORTH) = - (2 / 3)"
  by (simp add: fast_exit_lane_def empty_lane_def empty_counts_def valid_lane_def
      valid_vision_def valid_downstream_def nonneg_counts_def calculate_downstream_priority_def)

text \<open>
  Claim C7, as stated, fails: with 10 bikes, speed 0 and occupancy 1 the score under rain
  exceeds the dry score by 12, not by \<open>10 \<times> 0.3 \<times> 1.0 = 3\<close>, since the speed and occupancy
  multipliers apply to the rain adjustment too.
\<close>

theorem rain_increase_counterexample:
  "valid_lane (cyclists_lane NORTH) \<and>
   bike (vehicleCountByType (vision (cyclists_lane NORTH))) = 10 \<and>
   calculate_local_traffic_score (set_rain True (cyclists_lane NORTH)) -
   calculate_local_traffic_score (set_rain False (cyclists_lane NORTH)) = 12 \<and>
   calculate_local_traffic_score (set_rain True (cyclists_lane NORTH)) -
   calculate_local_traffic_score (set_rain False (cyclists_lane NORTH)) \<noteq>
     real_of_int (bike (vehicleCountByType (vision (cyclists_lane NORTH)))) * (3 / 10) * 1"
  by (simp add: cyclists_lane_def set_rain_def valid_lane_def valid_vision_def nonneg_counts_def
      calculate_local_traffic_score_def weighted_sum_def speed_factor_def engine_constants)

lemma set_rain_fields [simp]:
  "vehicleCountByType (vision (set_rain r lane)) = vehicleCountByType (vision lane)"
  "rainDetected (vision (set_rain r lane)) = r"
  "laneOccupancy (vision (set_rain r lane)) = laneOccupancy (vision lane)"
  "speed_factor (set_rain r lane) = speed_factor lane"
  by (simp_all add: set_rain_def speed_factor_def)

lemma weighted_sum_rain:
  "weighted_sum (set_rain True lane) - weighted_sum (set_rain False lane) =
     real_of_int (bike (vehicleCountByType (vision lane))) * (3 / 10) * 1"
  by (simp add: weighted_sum_def engine_constants Let_def)

text \<open>
  Claim C7, amended. For a lane with \<open>bikeCount > 0\<close> and a non-negative occupancy, setting
  \<open>rainDetected\<close> and keeping every other field gives a strictly higher local traffic score.
  The weighted sum grows by exactly \<open>bikeCount \<times> 0.3 \<times> (2.0 - 1)\<close>, and the score by that
  amount times \<open>1 + max 0 (1 - avgSpeed / 60)\<close> times \<open>1 + laneOccupancy\<close>.
\<close>

theorem rain_raises_local_score:
  assumes "bike (vehicleCountByType (vision lane)) > 0"
    and "0 \<le> laneOccupancy (vision lane)"
  shows "calculate_local_traffic_score (set_rain True lane) >
           calculate_local_traffic_score (set_rain False lane) \<and>
         weighted_sum (set_rain True lane) - weighted_sum (set_rain False lane) =
           real_of_int (bike (vehicleCountByType (vision lane))) * (3 / 10) * (2 - 1) \<and>
         calculate_local_traffic_score (set_rain True lane) -
           calculate_local_traffic_score (set_rain False lane) =
           real_of_int (bike (vehicleCountByType (vision lane))) * (3 / 10) * (2 - 1)
             * (1 + max 0 (1 - VisionOutput.avgSpeed (vision lane) / 60))
             * (1 + laneOccupancy (vision lane))"
proof -
  let ?b = "real_of_int (bike (vehicleCountByType (vision lane)))"
  let ?m = "(1 + speed_factor lane) * (1 + laneOccupancy (vision lane))"
  have sum: "weighted_sum (set_rain True lane) = weighted_sum (set_rain False lane) + ?b * (3 / 10)"
    using weighted_sum_rain [of lane] by simp
  have diff: "calculate_local_traffic_score (set_rain True lane) -
      calculate_local_traffic_score (set_rain False lane) = ?b * (3 / 10) * ?m"
    by (simp add: calculate_local_traffic_score_def sum algebra_simps)
  have "0 < 1 + speed_factor lane"
    by (simp add: speed_factor_def max_def)
  with assms(2) have "0 < ?m" by simp
  moreover from assms(1) have "0 < ?b * (3 / 10)" by simp
  ultimately have "0 < ?b * (3 / 10) * ?m" by (rule mult_pos_pos [rotated])
  with diff have "calculate_local_traffic_score (set_rain True lane) >
           calculate_local_traffic_score (set_rain False lane)"
    by linarith
  moreover from diff have "calculate_local_traffic_score (set_rain True lane) -
           calculate_local_traffic_score (set_rain False lane) =
           ?b * (3 / 10) * (2 - 1)
             * (1 + max 0 (1 - VisionOutput.avgSpeed (vision lane) / 60))
             * (1 + laneOccupancy (vision lane))"
    by (simp add: speed_factor_def)
  moreover from sum have "weighted_sum (set_rain True lane) - weighted_sum (set_rain False lane) =
           ?b * (3 / 10) * (2 - 1)"
    by simp
  ultimately show ?thesis by blast
qed

theorem rain_raises_local_score_witness:
  "bike (vehicleCountByType (vision (cyclists_lane NORTH))) > 0 \<and>
   0 \<le> laneOccupancy (vision (cyclists_lane NORTH)) \<and>
   calculate_local_traffic_score (set_rain True (cyclists_lane NORTH)) = 24 \<and>
   calculate_local_traffic_score (set_rain False (cyclists_lane NORTH)) = 12 \<and>
   weighted_sum (set_rain True (cyclists_lane NORTH)) -
     weighted_sum (set_rain False (cyclists_lane NORTH)) = 3"
  using rain_raises_local_score [of "cyclists_lane NORTH"]
  by (simp add: cyclists_lane_def set_rain_def
      calculate_local_traffic_score_def weighted_sum_def speed_factor_def engine_constants)

lemma calculate_net_priorities_map:
  "calculate_net_priorities lanes = map (\<lambda>(d, l). (d, net_priority l)) lanes"
  by (induction lanes rule: calculate_net_priorities.induct) simp_all

lemma lookup_distinct:
  assumes "distinct (map fst m)" and "(k, v) \<in> set m"
  shows "lookup m k = Inr v"
  using assms by (simp add: lookup_def)

lemma apply_recent_green_decay_map:
  assumes "distinct (map fst lanes)" and "set xs \<subseteq> set lanes"
  shows "apply_recent_green_decay now lanes (map (\<lambda>(d, l). (d, net_priority l)) xs) =
           Inr (map (\<lambda>(d, l). (d, net_priority l * decay_of now l)) xs)"
  using assms(2)
proof (induction xs)
  case Nil
  then show ?case by simp
next
  case (Cons x xs)
  obtain d l where x: "x = (d, l)" by (cases x)
  with Cons.prems have "(d, l) \<in> set lanes" by simp
  with assms(1) have "lookup lanes d = Inr l" by (rule lookup_distinct)
  moreover from Cons have "apply_recent_green_decay now lanes (map (\<lambda>(d, l). (d, net_priority l)) xs) =
           Inr (map (\<lambda>(d, l). (d, net_priority l * decay_of now l)) xs)"
    by simp
  ultimately show ?case by (simp add: x)
qed

lemma adjusted_priorities_map:
  assumes "distinct (map fst lanes)"
  shows "adjusted_priorities now lanes =
           Inr (map (\<lambda>(d, l). (d, net_priority l * decay_of now l)) lanes)"
  unfolding adjusted_priorities_def calculate_net_priorities_map
  by (rule apply_recent_green_decay_map [OF assms]) simp

lemma decay_of_min: "decay_of now lane = min 1 ((now - lastGreenTime lane) / 30)"
  by (simp add: decay_of_def RECENT_GREEN_DECAY_WINDOW_def Let_def min_def)

lemma sum_list_divide:
  fixes c :: real
  shows "sum_list (map (\<lambda>e. e / c) es) = sum_list es / c"
  by (induction es) (simp_all add: add_divide_distrib)

lemma member_le_sum_list_real:
  fixes es :: "real list"
  assumes "\<forall>e \<in> set es. 0 \<le> e" and "x \<in> set es"
  shows "x \<le> sum_list es"
  using assms
proof (induction es)
  case Nil
  then show ?case by simp
next
  case (Cons e es)
  from Cons.prems(1) have nonneg: "0 \<le> e" "0 \<le> sum_list es"
    by (simp_all add: sum_list_nonneg)
  show ?case
  proof (cases "x = e")
    case True
    with nonneg show ?thesis by simp
  next
    case False
    with Cons have "x \<le> sum_list es" by simp
    with nonneg show ?thesis by simp
  qed
qed

lemma ln2_bounds: "0 < ln (2::real)" "ln (2::real) \<le> 5 / 6"
proof -
  show "0 < ln (2::real)" by simp
  have "ln (2::real) = ln (4 / 3 * (3 / 2))" by simp
  also have "\<dots> = ln (4 / 3 :: real) + ln (3 / 2)"
    by (rule ln_mult_pos) simp_all
  also have "\<dots> \<le> (4 / 3 - 1) + (3 / 2 - 1)"
    by (intro add_mono ln_le_minus_one) simp_all
  finally show "ln (2::real) \<le> 5 / 6" by simp
qed

lemma np_exp_nonneg: "0 \<le> np_exp x"
  by (simp add: np_exp_def)

lemma np_exp_zero: "np_exp 0 = 1"
  using ln2_bounds(1) by (simp add: np_exp_def)

lemma np_exp_pos: "- (1075 * ln 2) < x \<Longrightarrow> 0 < np_exp x"
  by (simp add: np_exp_def)

lemma np_exp_underflow: "x \<le> - 896 \<Longrightarrow> np_exp x = 0"
  using ln2_bounds(2) by (simp add: np_exp_def)

text \<open>
  The softmax of a non-empty dictionary: same keys, non-negative entries, sum 1. An entry
  is positive when its scaled value is less than \<open>1075 \<times> ln 2\<close> below the maximum.
\<close>

lemma softmax_distribution:
  assumes "ps \<noteq> []"
  shows "\<exists>probs. softmax ps t = Inr probs \<and>
           map fst probs = map fst ps \<and>
           (\<forall>p \<in> set (map snd probs). 0 \<le> p) \<and>
           sum_list (map snd probs) = 1"
proof -
  let ?scaled = "map (\<lambda>v. v / t) (map (\<lambda>v. v + 1 / 1000000) (map snd ps))"
  let ?m = "Max (set ?scaled)"
  let ?exps = "map (\<lambda>s. np_exp (s - ?m)) ?scaled"
  let ?total = "sum_list ?exps"
  let ?probs = "zip (map fst ps) (map (\<lambda>e. e / ?total) ?exps)"
  from assms have nonempty: "?scaled \<noteq> []"
    by simp
  then have "?m \<in> set ?scaled"
    by (intro Max_in) simp_all
  then have "(\<lambda>s. np_exp (s - ?m)) ?m \<in> (\<lambda>s. np_exp (s - ?m)) ` set ?scaled"
    by (rule imageI)
  then have top: "1 \<in> set ?exps"
    by (simp only: diff_self np_exp_zero set_map)
  have nonneg: "\<forall>e \<in> set ?exps. 0 \<le> e"
    by (simp add: np_exp_nonneg)
  then have "1 \<le> ?total"
    using top by (rule member_le_sum_list_real)
  then have total: "0 < ?total" by simp
  from nonempty have run: "softmax ps t = Inr ?probs"
    by (simp add: softmax_def Let_def)
  have len: "length (map fst ps) = length (map (\<lambda>e. e / ?total) ?exps)"
    by simp
  have keys: "map fst ?probs = map fst ps"
    using len by (rule map_fst_zip)
  have vals: "map snd ?probs = map (\<lambda>e. e / ?total) ?exps"
    using len by (rule map_snd_zip)
  have "\<forall>p \<in> set (map (\<lambda>e. e / ?total) ?exps). 0 \<le> p"
    using total by (auto simp: np_exp_nonneg)
  then have positive: "\<forall>p \<in> set (map snd ?probs). 0 \<le> p"
    by (simp only: vals)
  have "sum_list (map (\<lambda>e. e / ?total) ?exps) = 1"
    using total by (simp only: sum_list_divide) simp
  then have one: "sum_list (map snd ?probs) = 1"
    by (simp only: vals)
  from run keys positive one show ?thesis by blast
qed

lemma select_lane_in_range:
  assumes "\<forall>p \<in> set (map snd probs). 0 \<le> p" and "sum_list (map snd probs) = 1"
    and "draw < length probs"
  shows "select_lane draw probs = Inr (fst (probs ! draw))"
proof -
  from assms(3) have "probs \<noteq> []" by auto
  moreover from assms(1) have "\<not> (\<exists>p \<in> set (map snd probs). p < 0)"
    by (meson not_less)
  ultimately show ?thesis
    using assms(2,3) by (simp add: select_lane_def Let_def)
qed

lemma green_duration_bounds:
  "MIN_GREEN \<le> calculate_green_duration lane \<and> calculate_green_duration lane \<le> MAX_GREEN"
  by (simp add: calculate_green_duration_def Let_def MIN_GREEN_def MAX_GREEN_def)

text \<open>
  The scoring path of \<open>decide\<close>, taken when neither override fires: the drawn lane is
  returned with its green time and its softmax probability.
\<close>

lemma decide_scoring_path:
  assumes keys: "distinct (map fst lanes)"
    and no_emergency: "check_emergency lanes = None"
    and no_wait: "check_max_wait lanes = None"
    and draw: "draw < length lanes"
  shows "\<exists>ps probs p.
           adjusted_priorities now lanes = Inr ps \<and>
           softmax ps TEMPERATURE = Inr probs \<and>
           lookup probs (fst (lanes ! draw)) = Inr p \<and> 0 \<le> p \<and> p \<le> 1 \<and>
           decide now stamp draw lanes =
             Inr \<lparr>selectedLane = fst (lanes ! draw),
                  greenDuration = calculate_green_duration (snd (lanes ! draw)),
                  decisionConfidence = p,
                  reasonTrace =
                    \<lparr>emergency = False, maxWaitViolation = False,
                     downstreamPenalty = 1 - calculate_downstream_priority (snd (lanes ! draw)),
                     recentGreenDecay = 1,
                     softmaxProbability = p,
                     localTrafficScore = calculate_local_traffic_score (snd (lanes ! draw))\<rparr>,
                  timestamp = stamp\<rparr>"
proof -
  let ?ps = "map (\<lambda>(d, l). (d, net_priority l * decay_of now l)) lanes"
  let ?d = "fst (lanes ! draw)"
  let ?l = "snd (lanes ! draw)"
  have adj: "adjusted_priorities now lanes = Inr ?ps"
    by (rule adjusted_priorities_map [OF keys])
  have ps_keys: "map fst ?ps = map fst lanes"
    by (simp add: case_prod_beta)
  from draw have "?ps \<noteq> []" by auto
  then obtain probs where soft: "softmax ?ps TEMPERATURE = Inr probs"
    and probs_keys: "map fst probs = map fst ?ps"
    and nonneg: "\<forall>p \<in> set (map snd probs). 0 \<le> p"
    and one: "sum_list (map snd probs) = 1"
    using softmax_distribution [of ?ps TEMPERATURE] by blast
  from probs_keys ps_keys have pk: "map fst probs = map fst lanes"
    by simp
  then have len: "length probs = length lanes"
    by (metis length_map)
  with draw have draw': "draw < length probs" by simp
  with nonneg one have sel: "select_lane draw probs = Inr (fst (probs ! draw))"
    by (intro select_lane_in_range)
  from pk draw draw' have same: "fst (probs ! draw) = ?d"
    by (metis nth_map)
  from draw have "(?d, ?l) \<in> set lanes" by simp
  with keys have state: "lookup lanes ?d = Inr ?l"
    by (rule lookup_distinct)
  let ?p = "snd (probs ! draw)"
  from draw' same have "(?d, ?p) \<in> set probs"
    by (metis nth_mem prod.collapse)
  moreover from keys pk have "distinct (map fst probs)" by simp
  ultimately have prob: "lookup probs ?d = Inr ?p"
    by (intro lookup_distinct)
  from draw' have mem: "?p \<in> set (map snd probs)" by simp
  with nonneg have p_pos: "0 \<le> ?p" by blast
  from nonneg have "?p \<le> sum_list (map snd probs)"
    using mem by (rule member_le_sum_list_real)
  with one have p_le: "?p \<le> 1" by simp
  have dur: "5 \<le> calculate_green_duration ?l" "calculate_green_duration ?l \<le> 120"
    using green_duration_bounds [of ?l] by (simp_all add: MIN_GREEN_def MAX_GREEN_def)
  have "decide now stamp draw lanes =
             Inr \<lparr>selectedLane = ?d,
                  greenDuration = calculate_green_duration ?l,
                  decisionConfidence = ?p,
                  reasonTrace =
                    \<lparr>emergency = False, maxWaitViolation = False,
                     downstreamPenalty = 1 - calculate_downstream_priority ?l,
                     recentGreenDecay = 1,
                     softmaxProbability = ?p,
                     localTrafficScore = calculate_local_traffic_score ?l\<rparr>,
                  timestamp = stamp\<rparr>"
    using no_emergency no_wait adj soft sel same state prob p_pos p_le dur
    by (simp add: decide_def create_decision_def new_SignalDecision_def)
  with adj soft prob p_pos p_le show ?thesis by blast
qed

text \<open>
  Claim C8. On the scoring path (no emergency flag, no lane over the maximum wait) the
  dictionary that \<open>decide\<close> hands to the softmax holds, for every lane, the adjusted priority
  \<open>localScore \<times> downstreamFactor\<^sup>2 \<times> decay\<close> with \<open>decay = min 1 ((now - lastGreenTime) / 30)\<close>,
  and the confidence of the decision is the softmax probability computed from it. The
  adjusted priority is 0 for a lane whose \<open>lastGreenTime\<close> is the current time, and the
  undecayed net priority for a lane last served 30 seconds ago or earlier.
\<close>

theorem adjusted_priority_formula:
  assumes "distinct (map fst lanes)"
    and "\<forall>(d, l) \<in> set lanes. \<not> ambulanceDetected (vision l)"
    and "\<forall>(d, l) \<in> set lanes. \<not> waitTime l > 120"
    and "draw < length lanes"
  shows "\<exists>ps probs dec.
           ps = map (\<lambda>(d, l).
                  (d, calculate_local_traffic_score l * (calculate_downstream_priority l)\<^sup>2
                      * min 1 ((now - lastGreenTime l) / 30))) lanes \<and>
           adjusted_priorities now lanes = Inr ps \<and>
           softmax ps TEMPERATURE = Inr probs \<and>
           decide now stamp draw lanes = Inr dec \<and>
           selectedLane dec = fst (lanes ! draw) \<and>
           lookup probs (selectedLane dec) = Inr (decisionConfidence dec) \<and>
           softmaxProbability (reasonTrace dec) = decisionConfidence dec \<and>
           (\<forall>(d, l) \<in> set lanes.
              lookup ps d =
                Inr (calculate_local_traffic_score l * (calculate_downstream_priority l)\<^sup>2
                     * min 1 ((now - lastGreenTime l) / 30)) \<and>
              (lastGreenTime l = now \<longrightarrow> lookup ps d = Inr 0) \<and>
              (now - lastGreenTime l \<ge> 30 \<longrightarrow>
                 lookup ps d =
                   Inr (calculate_local_traffic_score l * (calculate_downstream_priority l)\<^sup>2)))"
proof -
  let ?adj = "\<lambda>l. calculate_local_traffic_score l * (calculate_downstream_priority l)\<^sup>2
                  * min 1 ((now - lastGreenTime l) / 30)"
  let ?ps = "map (\<lambda>(d, l). (d, ?adj l)) lanes"
  have same: "?ps = map (\<lambda>(d, l). (d, net_priority l * decay_of now l)) lanes"
    by (simp add: net_priority_def decay_of_min)
  have run: "adjusted_priorities now lanes = Inr ?ps"
    unfolding same by (rule adjusted_priorities_map [OF assms(1)])
  from assms(2) have none: "check_emergency lanes = None"
    by (simp add: check_emergency_None case_prod_beta)
  from assms(3) have calm: "check_max_wait lanes = None"
    by (simp add: check_max_wait_None case_prod_beta MAX_WAIT_TIME_def)
  from decide_scoring_path [OF assms(1) none calm assms(4), of now stamp] run
  obtain probs p where soft: "softmax ?ps TEMPERATURE = Inr probs"
    and prob: "lookup probs (fst (lanes ! draw)) = Inr p"
    and dec: "decide now stamp draw lanes =
             Inr \<lparr>selectedLane = fst (lanes ! draw),
                  greenDuration = calculate_green_duration (snd (lanes ! draw)),
                  decisionConfidence = p,
                  reasonTrace =
                    \<lparr>emergency = False, maxWaitViolation = False,
                     downstreamPenalty = 1 - calculate_downstream_priority (snd (lanes ! draw)),
                     recentGreenDecay = 1,
                     softmaxProbability = p,
                     localTrafficScore = calculate_local_traffic_score (snd (lanes ! draw))\<rparr>,
                  timestamp = stamp\<rparr>"
    by auto
  have keys: "map fst ?ps = map fst lanes"
    by (simp add: case_prod_beta)
  have dist: "distinct (map fst ?ps)"
    by (subst keys) (rule assms(1))
  have each: "\<forall>(d, l) \<in> set lanes.
              lookup ?ps d = Inr (?adj l) \<and>
              (lastGreenTime l = now \<longrightarrow> lookup ?ps d = Inr 0) \<and>
              (now - lastGreenTime l \<ge> 30 \<longrightarrow>
                 lookup ?ps d =
                   Inr (calculate_local_traffic_score l * (calculate_downstream_priority l)\<^sup>2))"
  proof (intro ballI, clarify)
    fix d l
    assume "(d, l) \<in> set lanes"
    then have "(d, ?adj l) \<in> set ?ps"
      by force
    with dist have val: "lookup ?ps d = Inr (?adj l)"
      by (rule lookup_distinct)
    then show "lookup ?ps d = Inr (?adj l) \<and>
              (lastGreenTime l = now \<longrightarrow> lookup ?ps d = Inr 0) \<and>
              (now - lastGreenTime l \<ge> 30 \<longrightarrow>
                 lookup ?ps d =
                   Inr (calculate_local_traffic_score l * (calculate_downstream_priority l)\<^sup>2))"
      by (simp add: min_def)
  qed
  let ?dec = "\<lparr>selectedLane = fst (lanes ! draw),
                  greenDuration = calculate_green_duration (snd (lanes ! draw)),
                  decisionConfidence = p,
                  reasonTrace =
                    \<lparr>emergency = False, maxWaitViolation = False,
                     downstreamPenalty = 1 - calculate_downstream_priority (snd (lanes ! draw)),
                     recentGreenDecay = 1,
                     softmaxProbability = p,
                     localTrafficScore = calculate_local_traffic_score (snd (lanes ! draw))\<rparr>,
                  timestamp = stamp\<rparr>"
  have "selectedLane ?dec = fst (lanes ! draw)"
    and "lookup probs (selectedLane ?dec) = Inr (decisionConfidence ?dec)"
    and "softmaxProbability (reasonTrace ?dec) = decisionConfidence ?dec"
    using prob by simp_all
  with run soft dec each show ?thesis
    by blast
qed

theorem adjusted_priority_formula_witness:
  "distinct (map fst decay_snapshot) \<and>
   check_emergency decay_snapshot = None \<and>
   check_max_wait decay_snapshot = None \<and>
   (2::nat) < length decay_snapshot \<and>
   adjusted_priorities 100 decay_snapshot =
     Inr [(NORTH, 0), (SOUTH, 3125 / 9), (EAST, 6250 / 9), (WEST, 6250 / 9)] \<and>
   (\<exists>probs dec.
      softmax [(NORTH, 0), (SOUTH, 3125 / 9), (EAST, 6250 / 9), (WEST, 6250 / 9)] TEMPERATURE =
        Inr probs \<and>
      decide 100 101 2 decay_snapshot = Inr dec \<and>
      selectedLane dec = EAST \<and>
      lookup probs EAST = Inr (decisionConfidence dec))"
proof -
  have keys: "distinct (map fst decay_snapshot)"
    by (simp add: decay_snapshot_def)
  have flags: "\<forall>(d, l) \<in> set decay_snapshot. \<not> ambulanceDetected (vision l)"
    by (simp add: decay_snapshot_def busy_lane_def)
  have waits: "\<forall>(d, l) \<in> set decay_snapshot. \<not> waitTime l > 120"
    by (simp add: decay_snapshot_def busy_lane_def)
  have draw: "(2::nat) < length decay_snapshot"
    by (simp add: decay_snapshot_def)
  have quiet: "check_emergency decay_snapshot = None" "check_max_wait decay_snapshot = None"
    by (simp_all add: decay_snapshot_def busy_lane_def MAX_WAIT_TIME_def)
  have vals: "map (\<lambda>(d, l).
                  (d, calculate_local_traffic_score l * (calculate_downstream_priority l)\<^sup>2
                      * min 1 ((100 - lastGreenTime l) / 30))) decay_snapshot =
      [(NORTH, 0), (SOUTH, 3125 / 9), (EAST, 6250 / 9), (WEST, 6250 / 9)]"
    by (simp add: decay_snapshot_def busy_lane_def power2_eq_square
        calculate_local_traffic_score_def weighted_sum_def speed_factor_def
        calculate_downstream_priority_def engine_constants)
  from adjusted_priority_formula [OF keys flags waits draw, of 100 101]
  obtain probs dec where
    adj: "adjusted_priorities 100 decay_snapshot =
      Inr (map (\<lambda>(d, l).
                  (d, calculate_local_traffic_score l * (calculate_downstream_priority l)\<^sup>2
                      * min 1 ((100 - lastGreenTime l) / 30))) decay_snapshot)"
    and soft: "softmax (map (\<lambda>(d, l).
                  (d, calculate_local_traffic_score l * (calculate_downstream_priority l)\<^sup>2
                      * min 1 ((100 - lastGreenTime l) / 30))) decay_snapshot) TEMPERATURE =
        Inr probs"
    and run: "decide 100 101 2 decay_snapshot = Inr dec"
    and lane: "selectedLane dec = fst (decay_snapshot ! 2)"
    and conf: "lookup probs (selectedLane dec) = Inr (decisionConfidence dec)"
    by blast
  from lane have east: "selectedLane dec = EAST"
    by (simp add: decay_snapshot_def)
  from adj soft run east conf keys quiet draw show ?thesis
    unfolding vals by auto
qed

lemma congested_priorities:
  "adjusted_priorities 100 congested_snapshot =
     Inr [(NORTH, 0), (SOUTH, 6250 / 9), (EAST, 0), (WEST, 0)]"
  by (simp add: congested_snapshot_def empty_lane_def empty_counts_def busy_lane_def
      adjusted_priorities_def lookup_def decay_of_def net_priority_def power2_eq_square
      calculate_local_traffic_score_def weighted_sum_def speed_factor_def
      calculate_downstream_priority_def engine_constants)

text \<open>
  Claim C3: on the scoring path every softmax probability is strictly positive, a lane of
  adjusted priority 0 included, and the probabilities sum to 1. The sum is 1 and no entry
  is negative (\<open>softmax_distribution\<close>), but positivity fails on the code: in the snapshot
  below no override fires, the south lane has adjusted priority \<open>6250 / 9\<close> and the three
  empty lanes 0, so their scaled values lie \<open>62500 / 63 > 745.14\<close> below the maximum, the
  exponential underflows, and each empty lane gets the probability 0.
\<close>

theorem softmax_starves_empty_lanes:
  "valid_lane (empty_lane NORTH) \<and> valid_lane ((busy_lane SOUTH)\<lparr>waitTime := 40\<rparr>) \<and>
   check_emergency congested_snapshot = None \<and>
   check_max_wait congested_snapshot = None \<and>
   adjusted_priorities 100 congested_snapshot =
     Inr [(NORTH, 0), (SOUTH, 6250 / 9), (EAST, 0), (WEST, 0)] \<and>
   softmax [(NORTH, 0), (SOUTH, 6250 / 9), (EAST, 0), (WEST, 0)] TEMPERATURE =
     Inr [(NORTH, 0), (SOUTH, 1), (EAST, 0), (WEST, 0)]"
proof -
  have valid: "valid_lane (empty_lane NORTH)" "valid_lane ((busy_lane SOUTH)\<lparr>waitTime := 40\<rparr>)"
    by (simp_all add: empty_lane_def busy_lane_def empty_counts_def valid_lane_def
        valid_vision_def valid_downstream_def nonneg_counts_def)
  have quiet: "check_emergency congested_snapshot = None"
    "check_max_wait congested_snapshot = None"
    by (simp_all add: congested_snapshot_def empty_lane_def busy_lane_def MAX_WAIT_TIME_def)
  have low: "np_exp (- (62500 / 63)) = 0"
    by (rule np_exp_underflow) simp
  have "softmax [(NORTH, 0), (SOUTH, 6250 / 9), (EAST, 0), (WEST, 0)] TEMPERATURE =
     Inr [(NORTH, 0), (SOUTH, 1), (EAST, 0), (WEST, 0)]"
    by (simp add: softmax_def TEMPERATURE_def low np_exp_zero)
  with valid quiet congested_priorities show ?thesis by simp
qed

lemma decide_emergency:
  assumes "check_emergency lanes = Some d"
  shows "\<exists>dec. decide now stamp draw lanes = Inr dec"
  using assms
  by (simp add: decide_def create_emergency_decision_def new_SignalDecision_def MAX_GREEN_def)

lemma decide_forced:
  assumes "distinct (map fst lanes)" and "check_emergency lanes = None"
    and "check_max_wait lanes = Some d"
  shows "\<exists>dec. decide now stamp draw lanes = Inr dec"
proof -
  from assms(1,3) obtain l where "map_of lanes d = Some l"
    using check_max_wait_lookup by blast
  then have "lookup lanes d = Inr l"
    by (simp add: lookup_def)
  with assms(2,3) show ?thesis
    by (simp add: decide_def create_forced_decision_def new_SignalDecision_def MIN_GREEN_def)
qed

lemma green_duration_clamp:
  "calculate_green_duration lane =
     max 5 (min 60 (confidenceScore (vision lane) *
                     (5 + (60 - 5) * min (calculate_local_traffic_score lane / 50) 1)))"
  by (simp add: calculate_green_duration_def Let_def MIN_GREEN_def MAX_GREEN_def mult.commute)

text \<open>
  Claim C4. A decision of the scoring path (no emergency flag, no lane over the maximum
  wait) carries the green time
  \<open>clamp (confidence \<times> (MIN_GREEN + (MAX_GREEN - MIN_GREEN) \<times> min (localScore / 50) 1))\<close>
  of the selected lane, clamped to \<open>[MIN_GREEN, MAX_GREEN]\<close>, hence between 5 and 60.
\<close>

theorem green_duration_formula:
  assumes "distinct (map fst lanes)"
    and "\<forall>(d, l) \<in> set lanes. \<not> ambulanceDetected (vision l)"
    and "\<forall>(d, l) \<in> set lanes. \<not> waitTime l > 120"
    and "draw < length lanes"
  shows "\<exists>dec l.
           decide now stamp draw lanes = Inr dec \<and>
           lanes ! draw = (selectedLane dec, l) \<and>
           greenDuration dec =
             max 5 (min 60 (confidenceScore (vision l) *
                             (5 + (60 - 5) * min (calculate_local_traffic_score l / 50) 1))) \<and>
           5 \<le> greenDuration dec \<and> greenDuration dec \<le> 60"
proof -
  from assms(2) have none: "check_emergency lanes = None"
    by (simp add: check_emergency_None case_prod_beta)
  from assms(3) have calm: "check_max_wait lanes = None"
    by (simp add: check_max_wait_None case_prod_beta MAX_WAIT_TIME_def)
  let ?l = "snd (lanes ! draw)"
  from decide_scoring_path [OF assms(1) none calm assms(4), of now stamp]
  obtain dec where run: "decide now stamp draw lanes = Inr dec"
    and lane: "selectedLane dec = fst (lanes ! draw)"
    and dur: "greenDuration dec = calculate_green_duration ?l"
    by fastforce
  from lane have "lanes ! draw = (selectedLane dec, ?l)"
    by simp
  moreover from dur have "greenDuration dec =
             max 5 (min 60 (confidenceScore (vision ?l) *
                             (5 + (60 - 5) * min (calculate_local_traffic_score ?l / 50) 1)))"
    by (simp only: green_duration_clamp)
  moreover from dur have "5 \<le> greenDuration dec \<and> greenDuration dec \<le> 60"
    using green_duration_bounds [of ?l] by (simp add: MIN_GREEN_def MAX_GREEN_def)
  ultimately show ?thesis
    using run by blast
qed

theorem green_duration_formula_witness:
  "distinct (map fst congested_snapshot) \<and>
   check_emergency congested_snapshot = None \<and>
   check_max_wait congested_snapshot = None \<and>
   (1::nat) < length congested_snapshot \<and>
   (\<exists>dec. decide 100 101 1 congested_snapshot = Inr dec \<and>
          selectedLane dec = SOUTH \<and> greenDuration dec = 57)"
proof -
  have keys: "distinct (map fst congested_snapshot)"
    by (simp add: congested_snapshot_def)
  have flags: "\<forall>(d, l) \<in> set congested_snapshot. \<not> ambulanceDetected (vision l)"
    by (simp add: congested_snapshot_def empty_lane_def busy_lane_def)
  have waits: "\<forall>(d, l) \<in> set congested_snapshot. \<not> waitTime l > 120"
    by (simp add: congested_snapshot_def empty_lane_def busy_lane_def)
  have draw: "(1::nat) < length congested_snapshot"
    by (simp add: congested_snapshot_def)
  from green_duration_formula [OF keys flags waits draw, of 100 101]
  obtain dec l where run: "decide 100 101 1 congested_snapshot = Inr dec"
    and lane: "congested_snapshot ! 1 = (selectedLane dec, l)"
    and dur: "greenDuration dec =
             max 5 (min 60 (confidenceScore (vision l) *
                             (5 + (60 - 5) * min (calculate_local_traffic_score l / 50) 1)))"
    by blast
  from lane have sel: "selectedLane dec = SOUTH" and l: "l = (busy_lane SOUTH)\<lparr>waitTime := 40\<rparr>"
    by (simp_all add: congested_snapshot_def)
  have "calculate_local_traffic_score l = 250"
    unfolding l
    by (simp add: calculate_local_traffic_score_def weighted_sum_def speed_factor_def
        busy_lane_def engine_constants)
  with dur have "greenDuration dec = 57"
    unfolding l by (simp add: busy_lane_def)
  moreover have "check_emergency congested_snapshot = None"
    "check_max_wait congested_snapshot = None"
    by (simp_all add: congested_snapshot_def empty_lane_def busy_lane_def MAX_WAIT_TIME_def)
  ultimately show ?thesis
    using keys draw run sel by blast
qed

lemma new_SignalDecision_reason:
  "new_SignalDecision lane duration confidence reason stamp = Inr dec \<Longrightarrow> reasonTrace dec = reason"
  by (auto simp: new_SignalDecision_def split: if_splits)

lemma decide_without_flag:
  assumes "check_emergency lanes = None" and "decide now stamp draw lanes = Inr dec"
  shows "\<not> emergency (reasonTrace dec)"
proof (cases "check_max_wait lanes")
  case (Some d)
  with assms have "create_forced_decision stamp d lanes ''max_wait_violation'' = Inr dec"
    by (simp add: decide_def)
  then show ?thesis
    by (auto simp: create_forced_decision_def split: sum.splits dest: new_SignalDecision_reason)
next
  case None
  with assms obtain ps probs lane state where
    "create_decision stamp lane (calculate_green_duration state) lanes ps probs = Inr dec"
    by (auto simp: decide_def split: sum.splits)
  then show ?thesis
    by (auto simp: create_decision_def split: sum.splits dest: new_SignalDecision_reason)
qed

lemma set_emergency_count_fields [simp]:
  "laneOccupancy (vision (set_emergency_count n lane)) = laneOccupancy (vision lane)"
  "speed_factor (set_emergency_count n lane) = speed_factor lane"
  by (simp_all add: set_emergency_count_def speed_factor_def)

lemma weighted_sum_emergency:
  "weighted_sum lane =
     weighted_sum (set_emergency_count 0 lane) +
     real_of_int (VehicleCount.emergency (vehicleCountByType (vision lane))) * 10"
  by (simp add: weighted_sum_def set_emergency_count_def engine_constants Let_def)

text \<open>
  Claim C10. Only the flag \<open>ambulanceDetected\<close> triggers the emergency override. In a
  snapshot where no lane has the flag, a lane with a positive emergency count does not fire
  the override: no decision of \<open>decide\<close> is an emergency decision, and the count enters
  the lane's score as any other count does, with its weight of 10 for each vehicle in the
  weighted sum.
\<close>

theorem emergency_count_no_override:
  assumes "\<forall>(d, l) \<in> set lanes. \<not> ambulanceDetected (vision l)"
    and "(d, l) \<in> set lanes"
    and "VehicleCount.emergency (vehicleCountByType (vision l)) > 0"
  shows "check_emergency lanes = None \<and>
         (\<forall>dec. decide now stamp draw lanes = Inr dec \<longrightarrow> \<not> emergency (reasonTrace dec)) \<and>
         weighted_sum l =
           weighted_sum (set_emergency_count 0 l) +
           real_of_int (VehicleCount.emergency (vehicleCountByType (vision l))) * 10 \<and>
         calculate_local_traffic_score l =
           calculate_local_traffic_score (set_emergency_count 0 l) +
           real_of_int (VehicleCount.emergency (vehicleCountByType (vision l))) * 10
             * (1 + max 0 (1 - VisionOutput.avgSpeed (vision l) / 60))
             * (1 + laneOccupancy (vision l))"
proof -
  from assms(1) have none: "check_emergency lanes = None"
    by (simp add: check_emergency_None case_prod_beta)
  then have quiet: "\<forall>dec. decide now stamp draw lanes = Inr dec \<longrightarrow> \<not> emergency (reasonTrace dec)"
    using decide_without_flag by blast
  have sum: "weighted_sum l =
           weighted_sum (set_emergency_count 0 l) +
           real_of_int (VehicleCount.emergency (vehicleCountByType (vision l))) * 10"
    by (rule weighted_sum_emergency)
  have "calculate_local_traffic_score l =
           calculate_local_traffic_score (set_emergency_count 0 l) +
           real_of_int (VehicleCount.emergency (vehicleCountByType (vision l))) * 10
             * (1 + speed_factor l) * (1 + laneOccupancy (vision l))"
    unfolding calculate_local_traffic_score_def
    by (subst sum) (simp add: algebra_simps)
  then have score: "calculate_local_traffic_score l =
           calculate_local_traffic_score (set_emergency_count 0 l) +
           real_of_int (VehicleCount.emergency (vehicleCountByType (vision l))) * 10
             * (1 + max 0 (1 - VisionOutput.avgSpeed (vision l) / 60))
             * (1 + laneOccupancy (vision l))"
    by (simp add: speed_factor_def)
  from none quiet sum score show ?thesis by blast
qed

theorem emergency_count_no_override_witness:
  "(EAST, set_emergency_count 2 (waiting_lane EAST 125)) \<in> set unflagged_emergency \<and>
   VehicleCount.emergency
     (vehicleCountByType (vision (set_emergency_count 2 (waiting_lane EAST 125)))) > 0 \<and>
   check_emergency unflagged_emergency = None \<and>
   decide 100 101 0 unflagged_emergency =
     Inr \<lparr>selectedLane = EAST, greenDuration = 5, decisionConfidence = 1,
          reasonTrace = \<lparr>emergency = False, maxWaitViolation = True,
                         downstreamPenalty = 0, recentGreenDecay = 1,
                         softmaxProbability = 1, localTrafficScore = 40\<rparr>,
          timestamp = 101\<rparr>"
  using emergency_count_no_override
    [of unflagged_emergency EAST "set_emergency_count 2 (waiting_lane EAST 125)" 100 101 0]
  by (simp add: unflagged_emergency_def set_emergency_count_def waiting_lane_def empty_lane_def
      empty_counts_def decide_def create_forced_decision_def new_SignalDecision_def lookup_def
      calculate_local_traffic_score_def weighted_sum_def speed_factor_def engine_constants)

subsection \<open>Runs on doubles\<close>

lemma DBL_LIMIT_big: "2 ^ 1000 < DBL_LIMIT"
proof -
  have "(2::real) ^ 970 \<le> 2 ^ 1023" by (rule power_increasing) simp_all
  moreover have "(2::real) ^ 1024 = 2 * 2 ^ 1023" by (simp only: power_Suc [symmetric]) simp
  moreover have "(2::real) ^ 1000 < 2 ^ 1023" by (rule power_strict_increasing) simp_all
  ultimately show ?thesis unfolding DBL_LIMIT_def by linarith
qed

lemma mag_finite: "mag k x \<Longrightarrow> k \<le> 1000 \<Longrightarrow> \<bar>x\<bar> < DBL_LIMIT"
proof -
  assume "mag k x" and "k \<le> 1000"
  then have "\<bar>x\<bar> \<le> 2 ^ k" by (simp add: mag_def)
  also from \<open>k \<le> 1000\<close> have "(2::real) ^ k \<le> 2 ^ 1000" by (intro power_increasing) simp_all
  also note DBL_LIMIT_big
  finally show ?thesis .
qed

lemma mag_mono: "mag i x \<Longrightarrow> i \<le> j \<Longrightarrow> mag j x"
  unfolding mag_def by (meson order_trans power_increasing one_le_numeral)

lemma mag_add: "mag i a \<Longrightarrow> mag j b \<Longrightarrow> mag (Suc (max i j)) (a + b)"
proof -
  assume a: "mag i a" and b: "mag j b"
  from a have "mag (max i j) a" by (rule mag_mono) simp
  moreover from b have "mag (max i j) b" by (rule mag_mono) simp
  ultimately show ?thesis unfolding mag_def by simp
qed

lemma mag_diff: "mag i a \<Longrightarrow> mag j b \<Longrightarrow> mag (Suc (max i j)) (a - b)"
proof -
  assume a: "mag i a" and b: "mag j b"
  from a have "mag (max i j) a" by (rule mag_mono) simp
  moreover from b have "mag (max i j) b" by (rule mag_mono) simp
  ultimately show ?thesis unfolding mag_def by simp
qed

lemma mag_mult: "mag i a \<Longrightarrow> mag j b \<Longrightarrow> mag (i + j) (a * b)"
  unfolding mag_def by (simp add: abs_mult power_add mult_mono)

lemma mag_max: "mag i a \<Longrightarrow> mag j b \<Longrightarrow> mag (max i j) (max a b)"
proof -
  assume a: "mag i a" and b: "mag j b"
  from a have "mag (max i j) a" by (rule mag_mono) simp
  moreover from b have "mag (max i j) b" by (rule mag_mono) simp
  ultimately show ?thesis unfolding mag_def max_def by (simp split: if_splits)
qed

lemma mag_min: "mag i a \<Longrightarrow> mag j b \<Longrightarrow> mag (max i j) (min a b)"
proof -
  assume a: "mag i a" and b: "mag j b"
  from a have "mag (max i j) a" by (rule mag_mono) simp
  moreover from b have "mag (max i j) b" by (rule mag_mono) simp
  ultimately show ?thesis unfolding mag_def min_def by (simp split: if_splits)
qed

lemma mag_divide: "mag i a \<Longrightarrow> 1 \<le> c \<Longrightarrow> mag i (a / c)"
proof -
  assume a: "mag i a" and c: "1 \<le> c"
  then have "\<bar>a / c\<bar> = \<bar>a\<bar> / c" by simp
  also from c have "\<dots> \<le> \<bar>a\<bar>"
    using mult_left_mono [of 1 c "\<bar>a\<bar>"] by (simp add: divide_le_eq)
  finally show ?thesis using a by (simp add: mag_def)
qed

lemma mag_numeral: "\<bar>c\<bar> \<le> 16 \<Longrightarrow> mag 4 c"
  by (simp add: mag_def)

lemma mag_zero: "mag 0 0" and mag_one: "mag 0 1"
  by (simp_all add: mag_def)

lemma then_do_assoc: "then_do (then_do m g) f = then_do m (\<lambda>x. then_do (g x) f)"
  by (cases m) simp_all

lemma step_dbl: "mag k x \<Longrightarrow> k \<le> 1000 \<Longrightarrow> f x = r \<Longrightarrow> then_do (dbl x) f = r"
  by (simp add: dbl_def mag_finite)

lemma last_dbl: "mag k x \<Longrightarrow> k \<le> 1000 \<Longrightarrow> x = y \<Longrightarrow> dbl x = Returns y"
  by (simp add: dbl_def mag_finite)

lemma step_int:
  "mag k (real_of_int n) \<Longrightarrow> mag j w \<Longrightarrow> k + j \<le> 1000 \<Longrightarrow> f (real_of_int n * w) = r \<Longrightarrow>
   then_do (int_times_float n w) f = r"
proof -
  assume n: "mag k (real_of_int n)" and w: "mag j w" and small: "k + j \<le> 1000"
    and rest: "f (real_of_int n * w) = r"
  from n small have "\<bar>real_of_int n\<bar> < DBL_LIMIT" by (auto intro: mag_finite)
  moreover from n w have "mag (k + j) (real_of_int n * w)" by (rule mag_mult)
  then have "\<bar>real_of_int n * w\<bar> < DBL_LIMIT" using small by (rule mag_finite)
  ultimately show ?thesis
    using rest by (simp add: int_times_float_def float_of_int_def dbl_def)
qed

lemma mag_of_int: "\<bar>n\<bar> \<le> 2 ^ k \<Longrightarrow> mag k (real_of_int n)"
proof -
  assume "\<bar>n\<bar> \<le> 2 ^ k"
  then have "real_of_int \<bar>n\<bar> \<le> real_of_int (2 ^ k)" by (simp only: of_int_le_iff)
  then show ?thesis by (simp add: mag_def)
qed

lemma weights_mag:
  "mag 4 weight_car" "mag 4 weight_bike" "mag 4 weight_truck" "mag 4 weight_bus"
  "mag 4 weight_emergency" "mag 4 weight_pedestrians" "mag 4 (RAIN_BIKE_MULTIPLIER - 1)"
  by (simp_all add: mag_def engine_constants)

lemma mag_div_numeral:
  "mag i a \<Longrightarrow> mag i (a / 60)" "mag i a \<Longrightarrow> mag i (a / 50)"
  "mag i a \<Longrightarrow> mag i (a / RECENT_GREEN_DECAY_WINDOW)"
  by (simp_all add: mag_divide RECENT_GREEN_DECAY_WINDOW_def)

lemmas mag_intros = mag_add mag_diff mag_mult mag_max mag_min mag_div_numeral mag_zero mag_one

lemma score_f64_exact:
  assumes counts: "moderate_counts (vehicleCountByType (vision lane))"
    and vis: "valid_vision (vision lane)"
  shows "calculate_local_traffic_score_f64 lane = Returns (calculate_local_traffic_score lane)"
proof -
  let ?v = "vehicleCountByType (vision lane)"
  from counts have atoms:
    "mag 300 (real_of_int (car ?v))" "mag 300 (real_of_int (bike ?v))"
    "mag 300 (real_of_int (truck ?v))" "mag 300 (real_of_int (bus ?v))"
    "mag 300 (real_of_int (VehicleCount.emergency ?v))"
    "mag 300 (real_of_int (pedestrians ?v))"
    by (simp_all add: moderate_counts_def mag_of_int)
  from vis have speed: "mag 7 (VisionOutput.avgSpeed (vision lane))"
    and occ: "mag 0 (laneOccupancy (vision lane))"
    by (simp_all add: valid_vision_def mag_def)
  note facts = atoms speed occ weights_mag
  show ?thesis
  proof (cases "rainDetected (vision lane)")
    case True
    show ?thesis
      unfolding calculate_local_traffic_score_f64_def Let_def
      apply (simp only: True if_True then_do_assoc)
      apply ((rule step_int step_dbl, (rule facts mag_intros)+, simp)+)
      apply (rule last_dbl, (rule facts mag_intros)+, simp)
      apply (simp add: calculate_local_traffic_score_def weighted_sum_def speed_factor_def Let_def True)
      done
  next
    case False
    show ?thesis
      unfolding calculate_local_traffic_score_f64_def Let_def
      apply (simp only: False if_False then_do_assoc then_do.simps)
      apply ((rule step_int step_dbl, (rule facts mag_intros)+, simp)+)
      apply (rule last_dbl, (rule facts mag_intros)+, simp)
      apply (simp add: calculate_local_traffic_score_def weighted_sum_def speed_factor_def Let_def False)
      done
  qed
qed

lemma score_mag:
  assumes counts: "moderate_counts (vehicleCountByType (vision lane))"
    and vis: "valid_vision (vision lane)"
  shows "mag 330 (calculate_local_traffic_score lane)"
proof -
  let ?v = "vehicleCountByType (vision lane)"
  from counts have atoms:
    "mag 300 (real_of_int (car ?v))" "mag 300 (real_of_int (bike ?v))"
    "mag 300 (real_of_int (truck ?v))" "mag 300 (real_of_int (bus ?v))"
    "mag 300 (real_of_int (VehicleCount.emergency ?v))"
    "mag 300 (real_of_int (pedestrians ?v))"
    by (simp_all add: moderate_counts_def mag_of_int)
  from vis have speed: "mag 7 (VisionOutput.avgSpeed (vision lane))"
    and occ: "mag 0 (laneOccupancy (vision lane))"
    by (simp_all add: valid_vision_def mag_def)
  note facts = atoms speed occ weights_mag
  show ?thesis
    unfolding calculate_local_traffic_score_def weighted_sum_def speed_factor_def Let_def
    by (cases "rainDetected (vision lane)"; simp only: if_True if_False)
       (rule mag_mono, (rule facts mag_intros)+, simp)+
qed

lemma steady_laneD:
  assumes "steady_lane now lane"
  shows "moderate_counts (vehicleCountByType (vision lane))"
    and "valid_vision (vision lane)"
    and "\<bar>now - lastGreenTime lane\<bar> \<le> 2 ^ 300"
    and "downstream lane = Some d \<Longrightarrow> valid_downstream d"
  using assms by (simp_all add: steady_lane_def valid_lane_def moderate_lane_def)

lemma then_do_Returns: "m = Returns x \<Longrightarrow> f x = r \<Longrightarrow> then_do m f = r"
  by simp

lemma downstream_f64_exact:
  assumes "steady_lane now lane"
  shows "calculate_downstream_priority_f64 lane = Returns (calculate_downstream_priority lane)"
    and "mag 7 (calculate_downstream_priority lane)"
proof -
  show "calculate_downstream_priority_f64 lane = Returns (calculate_downstream_priority lane)"
  proof (cases "downstream lane")
    case None
    then show ?thesis
      by (simp add: calculate_downstream_priority_f64_def calculate_downstream_priority_def)
  next
    case (Some d)
    with assms have "valid_downstream d" by (simp add: steady_laneD)
    then have "mag 7 (DownstreamData.avgSpeed d)"
      by (simp add: valid_downstream_def mag_def)
    then have "mag 7 (DownstreamData.avgSpeed d / 60)"
      by (rule mag_div_numeral)
    then have "dbl (DownstreamData.avgSpeed d / 60) = Returns (DownstreamData.avgSpeed d / 60)"
      by (rule last_dbl) simp_all
    with Some show ?thesis
      by (simp add: calculate_downstream_priority_f64_def calculate_downstream_priority_def)
  qed
  show "mag 7 (calculate_downstream_priority lane)"
  proof (cases "downstream lane")
    case None
    then show ?thesis
      by (simp add: calculate_downstream_priority_def mag_def)
  next
    case (Some d)
    with assms have "valid_downstream d" by (simp add: steady_laneD)
    with Some show ?thesis
      by (simp add: calculate_downstream_priority_def valid_downstream_def mag_def max_def)
  qed
qed

lemma float_square_exact: "mag 7 x \<Longrightarrow> float_square x = Returns (x\<^sup>2)"
proof -
  assume "mag 7 x"
  then have "mag (7 + 7) (x * x)" by (intro mag_mult)
  then have "\<bar>x * x\<bar> < DBL_LIMIT" by (rule mag_finite) simp
  then show ?thesis by (simp add: float_square_def power2_eq_square)
qed

lemma net_priority_mag:
  assumes "steady_lane now lane"
  shows "mag 344 (net_priority lane)"
proof -
  from assms have "mag 330 (calculate_local_traffic_score lane)"
    by (intro score_mag steady_laneD)
  moreover from assms have "mag 7 (calculate_downstream_priority lane)"
    by (rule downstream_f64_exact)
  ultimately show ?thesis
    unfolding net_priority_def power2_eq_square
    by - (rule mag_mono, (rule mag_mult | assumption)+, simp)
qed

lemma net_priorities_f64_exact:
  assumes "\<forall>(d, l) \<in> set xs. steady_lane now l"
  shows "calculate_net_priorities_f64 xs = Returns (calculate_net_priorities xs)"
  using assms
proof (induction xs rule: calculate_net_priorities.induct)
  case 1
  show ?case by simp
next
  case (2 dir lane rest)
  then have steady: "steady_lane now lane" by simp
  then have score: "calculate_local_traffic_score_f64 lane =
      Returns (calculate_local_traffic_score lane)"
    by (intro score_f64_exact steady_laneD)
  from steady have factor: "calculate_downstream_priority_f64 lane =
      Returns (calculate_downstream_priority lane)"
    by (rule downstream_f64_exact)
  from steady have "mag 7 (calculate_downstream_priority lane)"
    by (rule downstream_f64_exact)
  then have square: "float_square (calculate_downstream_priority lane) =
      Returns ((calculate_downstream_priority lane)\<^sup>2)"
    by (rule float_square_exact)
  from steady have "mag 344 (net_priority lane)"
    by (rule net_priority_mag)
  then have net: "dbl (net_priority lane) = Returns (net_priority lane)"
    by (rule last_dbl) simp_all
  from 2 have rest: "calculate_net_priorities_f64 rest = Returns (calculate_net_priorities rest)"
    by simp
  show ?case
    using net by (simp add: score factor square rest net_priority_def)
qed

lemma decay_of_mag:
  assumes "\<bar>now - lastGreenTime lane\<bar> \<le> 2 ^ 300"
  shows "mag 300 (decay_of now lane)"
proof -
  from assms have "mag 300 (now - lastGreenTime lane)" unfolding mag_def .
  then have "mag 300 ((now - lastGreenTime lane) / RECENT_GREEN_DECAY_WINDOW)"
    by (rule mag_div_numeral)
  moreover have "mag 300 1" by (simp add: mag_def)
  ultimately show ?thesis by (simp add: decay_of_def Let_def)
qed

lemma decay_step_exact:
  assumes "steady_lane now lane"
  shows "then_do (dbl (now - lastGreenTime lane)) (\<lambda>time_since_green.
         then_do (if time_since_green < RECENT_GREEN_DECAY_WINDOW
                  then dbl (time_since_green / RECENT_GREEN_DECAY_WINDOW)
                  else Returns 1) (\<lambda>decay.
         then_do (dbl (net_priority lane * decay)) f)) =
         f (net_priority lane * decay_of now lane)"
proof -
  have t: "mag 300 (now - lastGreenTime lane)"
    unfolding mag_def by (rule steady_laneD(3) [OF assms])
  then have first: "dbl (now - lastGreenTime lane) = Returns (now - lastGreenTime lane)"
    by (rule last_dbl) simp_all
  from t have "mag 300 ((now - lastGreenTime lane) / RECENT_GREEN_DECAY_WINDOW)"
    by (rule mag_div_numeral)
  then have second: "dbl ((now - lastGreenTime lane) / RECENT_GREEN_DECAY_WINDOW) =
      Returns ((now - lastGreenTime lane) / RECENT_GREEN_DECAY_WINDOW)"
    by (rule last_dbl) simp_all
  from assms have "mag 344 (net_priority lane)" by (rule net_priority_mag)
  moreover from assms have "mag 300 (decay_of now lane)"
    by (intro decay_of_mag steady_laneD)
  ultimately have "mag (344 + 300) (net_priority lane * decay_of now lane)"
    by (rule mag_mult)
  then have third: "dbl (net_priority lane * decay_of now lane) =
      Returns (net_priority lane * decay_of now lane)"
    by (rule last_dbl) simp_all
  show ?thesis
    using third by (simp add: first second decay_of_def Let_def split: if_splits)
qed

lemma lift_Inr [simp]: "lift (Inr v) = Returns v" and lift_Inl [simp]: "lift (Inl e) = Raises e"
  by (simp_all add: lift_def)

lemma apply_recent_green_decay_f64_exact:
  assumes "distinct (map fst lanes)" and "\<forall>(d, l) \<in> set lanes. steady_lane now l"
    and "set xs \<subseteq> set lanes"
  shows "apply_recent_green_decay_f64 now lanes (map (\<lambda>(d, l). (d, net_priority l)) xs) =
           Returns (map (\<lambda>(d, l). (d, net_priority l * decay_of now l)) xs)"
  using assms(3)
proof (induction xs)
  case Nil
  then show ?case by simp
next
  case (Cons x xs)
  obtain d l where x: "x = (d, l)" by (cases x)
  with Cons.prems have mem: "(d, l) \<in> set lanes" by simp
  with assms(1) have found: "lookup lanes d = Inr l" by (rule lookup_distinct)
  from mem assms(2) have steady: "steady_lane now l" by auto
  from Cons have rest: "apply_recent_green_decay_f64 now lanes (map (\<lambda>(d, l). (d, net_priority l)) xs) =
           Returns (map (\<lambda>(d, l). (d, net_priority l * decay_of now l)) xs)"
    by simp
  show ?case
    by (simp add: x found decay_step_exact [OF steady] rest)
qed

lemma map_outcome_exact:
  assumes "\<And>x. x \<in> set xs \<Longrightarrow> f x = Returns (g x)"
  shows "map_outcome f xs = Returns (map g xs)"
  using assms by (induction xs) simp_all

lemma np_sum_exact:
  assumes "\<forall>x \<in> set xs. 0 \<le> x \<and> x \<le> 1" and "0 \<le> acc"
    and "acc + real (length xs) \<le> 2 ^ 1000"
  shows "np_sum acc xs = Returns (acc + sum_list xs)"
  using assms
proof (induction xs arbitrary: acc)
  case Nil
  then show ?case by simp
next
  case (Cons x xs)
  from Cons.prems have x: "0 \<le> x" "x \<le> 1" by simp_all
  with Cons.prems have "\<bar>acc + x\<bar> \<le> 2 ^ 1000" by simp
  then have "\<bar>acc + x\<bar> < DBL_LIMIT" using DBL_LIMIT_big by linarith
  then have step: "dbl (acc + x) = Returns (acc + x)" by (simp add: dbl_def)
  from Cons.prems x have "np_sum (acc + x) xs = Returns (acc + x + sum_list xs)"
    by (intro Cons.IH) simp_all
  with step show ?case by (simp add: add.assoc)
qed

lemma mag_div_temperature: "mag i a \<Longrightarrow> mag (Suc i) (a / TEMPERATURE)"
proof -
  assume "mag i a"
  then have bound: "\<bar>a\<bar> \<le> 2 ^ i" by (simp add: mag_def)
  have "\<bar>a / TEMPERATURE\<bar> = \<bar>a\<bar> * (10 / 7)" by (simp add: TEMPERATURE_def)
  also have "\<dots> \<le> \<bar>a\<bar> * 2" by (intro mult_left_mono) simp_all
  also from bound have "\<dots> \<le> 2 ^ i * 2" by simp
  finally show ?thesis by (simp add: mag_def mult.commute)
qed

lemma np_exp_unit: "x \<le> 0 \<Longrightarrow> 0 \<le> np_exp x \<and> np_exp x \<le> 1"
  by (simp add: np_exp_def)

lemma four_small: "(4::real) \<le> 2 ^ 1000"
proof -
  have "(2::real) ^ 2 \<le> 2 ^ 1000" by (rule power_increasing) simp_all
  then show ?thesis by simp
qed

lemma softmax_f64_exact:
  assumes small: "\<forall>p \<in> set (map snd ps). mag 644 p" and short: "length ps \<le> 4"
  shows "softmax_f64 ps TEMPERATURE = lift (softmax ps TEMPERATURE)"
proof -
  let ?vals = "map (\<lambda>v. v + 1 / 1000000) (map snd ps)"
  let ?scaled = "map (\<lambda>v. v / TEMPERATURE) ?vals"
  have vals_mag: "\<forall>v \<in> set ?vals. mag 645 v"
  proof
    fix v assume "v \<in> set ?vals"
    then obtain p where p: "p \<in> set (map snd ps)" and v: "v = p + 1 / 1000000" by auto
    from p small have "mag 644 p" by blast
    moreover have "mag 0 (1 / 1000000 :: real)" by (simp add: mag_def)
    ultimately have "mag (Suc (max 644 0)) (p + 1 / 1000000)" by (rule mag_add)
    with v show "mag 645 v" by simp
  qed
  have first: "map_outcome (\<lambda>v. dbl (v + 1 / 1000000)) (map snd ps) = Returns ?vals"
  proof (rule map_outcome_exact)
    fix p assume "p \<in> set (map snd ps)"
    then have "p + 1 / 1000000 \<in> set ?vals" by force
    with vals_mag have "mag 645 (p + 1 / 1000000)" by blast
    then show "dbl (p + 1 / 1000000) = Returns (p + 1 / 1000000)"
      by (rule last_dbl) simp_all
  qed
  have scaled_mag: "\<forall>s \<in> set ?scaled. mag 646 s"
  proof
    fix s assume "s \<in> set ?scaled"
    then obtain v where v: "v \<in> set ?vals" and s: "s = v / TEMPERATURE" by auto
    from v vals_mag have "mag 645 v" by blast
    then have "mag (Suc 645) (v / TEMPERATURE)" by (rule mag_div_temperature)
    with s show "mag 646 s" by simp
  qed
  have second: "map_outcome (\<lambda>v. dbl (v / TEMPERATURE)) ?vals = Returns ?scaled"
  proof (rule map_outcome_exact)
    fix v assume "v \<in> set ?vals"
    then have "v / TEMPERATURE \<in> set ?scaled" by force
    with scaled_mag have "mag 646 (v / TEMPERATURE)" by blast
    then show "dbl (v / TEMPERATURE) = Returns (v / TEMPERATURE)"
      by (rule last_dbl) simp_all
  qed
  show ?thesis
  proof (cases "ps = []")
    case True
    then show ?thesis
      by (simp add: softmax_f64_def softmax_def)
  next
    case False
    then have nonempty: "?scaled \<noteq> []" by simp
    let ?m = "Max (set ?scaled)"
    let ?shifted = "map (\<lambda>s. s - ?m) ?scaled"
    let ?exps = "map (\<lambda>s. np_exp (s - ?m)) ?scaled"
    let ?total = "sum_list ?exps"
    from nonempty have m_in: "?m \<in> set ?scaled" by (intro Max_in) simp_all
    with scaled_mag have m_mag: "mag 646 ?m" by blast
    have third: "map_outcome (\<lambda>s. dbl (s - ?m)) ?scaled = Returns ?shifted"
    proof (rule map_outcome_exact)
      fix s assume "s \<in> set ?scaled"
      with scaled_mag have "mag 646 s" by blast
      from this m_mag have "mag (Suc (max 646 646)) (s - ?m)" by (rule mag_diff)
      then show "dbl (s - ?m) = Returns (s - ?m)" by (rule last_dbl) simp_all
    qed
    have unit: "\<forall>e \<in> set ?exps. 0 \<le> e \<and> e \<le> 1"
    proof
      fix e assume "e \<in> set ?exps"
      then obtain s where s: "s \<in> set ?scaled" and e: "e = np_exp (s - ?m)" by auto
      from s have "s \<le> ?m" by (intro Max_ge) simp_all
      then have "s - ?m \<le> 0" by simp
      with e show "0 \<le> e \<and> e \<le> 1" by (simp only: np_exp_unit)
    qed
    have fourth: "map_outcome (\<lambda>s. dbl (np_exp s)) ?shifted = Returns ?exps"
    proof -
      have "map_outcome (\<lambda>s. dbl (np_exp s)) ?shifted = Returns (map np_exp ?shifted)"
      proof (rule map_outcome_exact)
        fix t assume "t \<in> set ?shifted"
        then have "np_exp t \<in> set ?exps" by auto
        with unit have "mag 0 (np_exp t)" by (auto simp: mag_def)
        then show "dbl (np_exp t) = Returns (np_exp t)" by (rule last_dbl) simp_all
      qed
      then show ?thesis by (simp add: comp_def)
    qed
    have "length ?exps \<le> 4" using short by simp
    then have "0 + real (length ?exps) \<le> 2 ^ 1000"
      using four_small by linarith
    with unit have "np_sum 0 ?exps = Returns (0 + ?total)"
      by (intro np_sum_exact) simp_all
    then have fifth: "np_sum 0 ?exps = Returns ?total" by simp
    from m_in have "(\<lambda>s. np_exp (s - ?m)) ?m \<in> (\<lambda>s. np_exp (s - ?m)) ` set ?scaled"
      by (rule imageI)
    then have top: "1 \<in> set ?exps"
      by (simp only: diff_self np_exp_zero set_map)
    from unit have "\<forall>e \<in> set ?exps. 0 \<le> e" by blast
    then have total: "1 \<le> ?total"
      using top by (rule member_le_sum_list_real)
    have sixth: "map_outcome (\<lambda>e. np_divide e ?total) ?exps =
        Returns (map (\<lambda>e. e / ?total) ?exps)"
    proof (rule map_outcome_exact)
      fix e assume "e \<in> set ?exps"
      with unit have "mag 0 e" by (auto simp: mag_def)
      then have "mag 0 (e / ?total)" using total by (rule mag_divide)
      then have "dbl (e / ?total) = Returns (e / ?total)" by (rule last_dbl) simp_all
      with total show "np_divide e ?total = Returns (e / ?total)"
        by (simp add: np_divide_def)
    qed
    from nonempty show ?thesis
      unfolding softmax_f64_def softmax_def Let_def
      by (simp only: first second third fourth fifth sixth then_do.simps if_False lift_Inr)
  qed
qed

lemma lookup_mem: "lookup m k = Inr v \<Longrightarrow> (k, v) \<in> set m"
  by (auto simp: lookup_def split: option.splits dest: map_of_SomeD)

lemma directions_short:
  assumes "distinct (map fst lanes)"
  shows "length (lanes :: lanes) \<le> 4"
proof -
  have "(UNIV :: LaneDirection set) = {NORTH, SOUTH, EAST, WEST}"
    by (auto intro: LaneDirection.exhaust)
  then have "set (map fst lanes) \<subseteq> {NORTH, SOUTH, EAST, WEST}"
    by blast
  then have "card (set (map fst lanes)) \<le> card {NORTH, SOUTH, EAST, WEST}"
    by (intro card_mono) simp_all
  moreover from assms have "card (set (map fst lanes)) = length lanes"
    using distinct_card [of "map fst lanes"] by (simp only: length_map)
  ultimately show ?thesis by simp
qed

lemma green_duration_f64_exact:
  assumes "steady_lane now lane"
  shows "calculate_green_duration_f64 lane = Returns (calculate_green_duration lane)"
proof -
  from assms have score: "calculate_local_traffic_score_f64 lane =
      Returns (calculate_local_traffic_score lane)"
    by (intro score_f64_exact steady_laneD)
  from assms have facts:
    "mag 330 (calculate_local_traffic_score lane)"
    "mag 0 (confidenceScore (vision lane))"
    "mag 6 (MAX_GREEN - MIN_GREEN)" "mag 3 MIN_GREEN"
    by (simp_all add: score_mag steady_laneD)
       (simp_all add: steady_lane_def valid_lane_def valid_vision_def mag_def engine_constants)
  show ?thesis
    unfolding calculate_green_duration_f64_def
    apply (simp only: score then_do.simps)
    apply ((rule step_dbl, (rule facts mag_intros)+, simp)+)
    apply (simp add: calculate_green_duration_def Let_def)
    done
qed

lemma create_decision_f64_exact:
  assumes "\<forall>(d, l) \<in> set lanes. steady_lane now l"
  shows "create_decision_f64 stamp lane duration lanes ps probabilities =
           lift (create_decision stamp lane duration lanes ps probabilities)"
proof (cases "lookup lanes lane")
  case (Inl e)
  then show ?thesis by (simp add: create_decision_f64_def create_decision_def)
next
  case (Inr state)
  then have "(lane, state) \<in> set lanes" by (rule lookup_mem)
  with assms have steady: "steady_lane now state" by auto
  then have score: "calculate_local_traffic_score_f64 state =
      Returns (calculate_local_traffic_score state)"
    by (intro score_f64_exact steady_laneD)
  from steady have factor: "calculate_downstream_priority_f64 state =
      Returns (calculate_downstream_priority state)"
    by (rule downstream_f64_exact)
  from steady have "mag 7 (calculate_downstream_priority state)"
    by (rule downstream_f64_exact)
  with mag_one have "mag (Suc (max 0 7)) (1 - calculate_downstream_priority state)"
    by (rule mag_diff)
  then have penalty: "dbl (1 - calculate_downstream_priority state) =
      Returns (1 - calculate_downstream_priority state)"
    by (rule last_dbl) simp_all
  show ?thesis
    by (cases "lookup probabilities lane")
       (simp_all add: create_decision_f64_def create_decision_def Inr score factor penalty)
qed

lemma create_forced_decision_f64_exact:
  assumes "\<forall>(d, l) \<in> set lanes. steady_lane now l"
  shows "create_forced_decision_f64 stamp lane lanes reason_type =
           lift (create_forced_decision stamp lane lanes reason_type)"
proof (cases "lookup lanes lane")
  case (Inl e)
  then show ?thesis by (simp add: create_forced_decision_f64_def create_forced_decision_def)
next
  case (Inr state)
  then have "(lane, state) \<in> set lanes" by (rule lookup_mem)
  with assms have "steady_lane now state" by auto
  then have "calculate_local_traffic_score_f64 state =
      Returns (calculate_local_traffic_score state)"
    by (intro score_f64_exact steady_laneD)
  with Inr show ?thesis
    by (simp add: create_forced_decision_f64_def create_forced_decision_def)
qed

text \<open>
  On a snapshot of steady lanes every double of the run stays finite: the run with doubles
  and the run in exact arithmetic are the same run.
\<close>

lemma decide_f64_exact:
  assumes keys: "distinct (map fst lanes)"
    and steady: "\<forall>(d, l) \<in> set lanes. steady_lane now l"
  shows "decide_f64 now stamp draw lanes = lift (decide now stamp draw lanes)"
proof (cases "truthy (check_emergency lanes)")
  case True
  then show ?thesis by (simp add: decide_f64_def decide_def)
next
  case quiet: False
  show ?thesis
  proof (cases "truthy (check_max_wait lanes)")
    case True
    with quiet show ?thesis
      by (simp add: decide_f64_def decide_def create_forced_decision_f64_exact [OF steady])
  next
    case calm: False
    let ?ps = "map (\<lambda>(d, l). (d, net_priority l * decay_of now l)) lanes"
    have net: "calculate_net_priorities_f64 lanes =
        Returns (map (\<lambda>(d, l). (d, net_priority l)) lanes)"
      using net_priorities_f64_exact [OF steady] by (simp only: calculate_net_priorities_map)
    have decay: "apply_recent_green_decay_f64 now lanes (map (\<lambda>(d, l). (d, net_priority l)) lanes) =
        Returns ?ps"
      by (rule apply_recent_green_decay_f64_exact [OF keys steady]) simp
    have adj: "adjusted_priorities now lanes = Inr ?ps"
      by (rule adjusted_priorities_map [OF keys])
    have small: "\<forall>p \<in> set (map snd ?ps). mag 644 p"
    proof
      fix p assume "p \<in> set (map snd ?ps)"
      then obtain d l where mem: "(d, l) \<in> set lanes"
        and p: "p = net_priority l * decay_of now l"
        by auto
      from mem steady have s: "steady_lane now l" by auto
      then have "mag 344 (net_priority l)" by (rule net_priority_mag)
      moreover from s have "mag 300 (decay_of now l)"
        by (intro decay_of_mag steady_laneD)
      ultimately have "mag (344 + 300) (net_priority l * decay_of now l)"
        by (rule mag_mult)
      with p show "mag 644 p" by simp
    qed
    from keys have "length ?ps \<le> 4"
      using directions_short [of lanes] by simp
    with small have soft: "softmax_f64 ?ps TEMPERATURE = lift (softmax ?ps TEMPERATURE)"
      by (rule softmax_f64_exact)
    have green: "\<And>d state. lookup lanes d = Inr state \<Longrightarrow>
        calculate_green_duration_f64 state = Returns (calculate_green_duration state)"
    proof -
      fix d state assume "lookup lanes d = Inr state"
      then have "(d, state) \<in> set lanes" by (rule lookup_mem)
      with steady have "steady_lane now state" by auto
      then show "calculate_green_duration_f64 state = Returns (calculate_green_duration state)"
        by (rule green_duration_f64_exact)
    qed
    from quiet calm show ?thesis
      unfolding decide_f64_def decide_def Let_def
      by (simp only: if_False net decay adj soft then_do.simps sum.case)
         (auto simp: lift_def green create_decision_f64_exact [OF steady] split: sum.splits)
  qed
qed

lemma decide_returns:
  assumes "distinct (map fst lanes)" and "draw < length lanes"
  shows "\<exists>dec. decide now stamp draw lanes = Inr dec"
proof (cases "check_emergency lanes")
  case (Some d)
  then show ?thesis by (rule decide_emergency)
next
  case None
  show ?thesis
  proof (cases "check_max_wait lanes")
    case (Some d)
    with assms(1) None show ?thesis by (rule decide_forced)
  next
    case calm: None
    from decide_scoring_path [OF assms(1) None calm assms(2), of now stamp]
    show ?thesis by blast
  qed
qed

lemma congested_probabilities:
  "softmax [(NORTH, 0), (SOUTH, 6250 / 9), (EAST, 0), (WEST, 0)] TEMPERATURE =
     Inr [(NORTH, 0), (SOUTH, 1), (EAST, 0), (WEST, 0)]"
proof -
  have low: "np_exp (- (62500 / 63)) = 0"
    by (rule np_exp_underflow) simp
  show ?thesis
    by (simp add: softmax_def TEMPERATURE_def low np_exp_zero)
qed

lemma float_of_int_overflow: "float_of_int (2 ^ 1024) = Raises OverflowError"
proof -
  have "\<not> \<bar>real_of_int (2 ^ 1024)\<bar> < DBL_LIMIT"
    by (simp add: DBL_LIMIT_def)
  then show ?thesis by (simp only: float_of_int_def if_False)
qed

lemma far_future_bounds:
  fixes x y :: real
  assumes "512 \<le> x" and "0 < y" and "y \<le> x"
  shows "\<bar>100 - x\<bar> < 16 * x - y"
    and "\<bar>(100 - x) / 30\<bar> < 16 * x - y"
    and "\<not> \<bar>6250 / 9 * ((100 - x) / 30)\<bar> < 16 * x - y"
proof -
  from assms have d: "\<bar>100 - x\<bar> = x - 100" by linarith
  from assms show "\<bar>100 - x\<bar> < 16 * x - y" by linarith
  have "\<bar>(100 - x) / 30\<bar> = (x - 100) / 30"
    unfolding abs_divide d by simp
  moreover from assms have "x - 100 < (16 * x - y) * 30" by (simp add: algebra_simps)
  then have "(x - 100) / 30 < 16 * x - y" by (simp only: pos_divide_less_eq zero_less_numeral)
  ultimately show "\<bar>(100 - x) / 30\<bar> < 16 * x - y" by (simp only:)
  have "\<bar>6250 / 9 * ((100 - x) / 30)\<bar> = 6250 / 9 * ((x - 100) / 30)"
    unfolding abs_mult abs_divide d by simp
  moreover from assms have "(16 * x - y) * 270 \<le> 6250 * (x - 100)" by (simp add: algebra_simps)
  then have "16 * x - y \<le> 6250 * (x - 100) / 270" by (simp only: pos_le_divide_eq zero_less_numeral)
  then have "16 * x - y \<le> 6250 / 9 * ((x - 100) / 30)" by simp
  ultimately show "\<not> \<bar>6250 / 9 * ((100 - x) / 30)\<bar> < 16 * x - y" by (simp only: not_less)
qed
lemma far_future_doubles:
  "dbl (100 - 2 ^ 1020) = Returns (100 - 2 ^ 1020)"
  "dbl ((100 - 2 ^ 1020) / 30) = Returns ((100 - 2 ^ 1020) / 30)"
  "dbl (6250 / 9 * ((100 - 2 ^ 1020) / 30)) = Not_finite"
proof -
  let ?x = "(2::real) ^ 1020"
  have nine: "(2::real) ^ 9 = 512" by simp
  have "(2::real) ^ 9 \<le> ?x" by (rule power_increasing) simp_all
  then have big: "512 \<le> ?x" by (simp only: nine)
  have small: "(2::real) ^ 970 \<le> ?x" by (rule power_increasing) simp_all
  have pos: "0 < (2::real) ^ 970" by (rule zero_less_power) simp
  have sixteen: "(2::real) ^ 4 = 16" by simp
  have "(2::real) ^ (4 + 1020) = 2 ^ 4 * ?x" by (rule power_add)
  moreover have "(4::nat) + 1020 = 1024" by simp
  ultimately have "(2::real) ^ 1024 = 16 * ?x" by (simp only: sixteen)
  then have lim: "DBL_LIMIT = 16 * ?x - 2 ^ 970" by (simp only: DBL_LIMIT_def)
  note bounds = far_future_bounds [OF big pos small, folded lim]
  from bounds(1) show "dbl (100 - ?x) = Returns (100 - ?x)"
    by (simp only: dbl_def if_True)
  from bounds(2) show "dbl ((100 - ?x) / 30) = Returns ((100 - ?x) / 30)"
    by (simp only: dbl_def if_True)
  from bounds(3) show "dbl (6250 / 9 * ((100 - ?x) / 30)) = Not_finite"
    by (simp only: dbl_def if_False)
qed

text \<open>
  A last green far in the future: the product of net priority and decay overflows in the
  first lane. The code goes on with \<^verbatim>\<open>-inf\<close> in all four lanes, \<^verbatim>\<open>nan\<close> after the
  subtraction of the maximum, and the \<^verbatim>\<open>ValueError\<close> of \<^verbatim>\<open>np.random.choice\<close>; the run on
  doubles stops at the overflow.
\<close>

lemma far_future_not_finite:
  "list_all valid_lane (map snd far_future_snapshot) \<and>
   check_emergency far_future_snapshot = None \<and>
   check_max_wait far_future_snapshot = None \<and>
   decide_f64 100 101 1 far_future_snapshot = Not_finite"
proof -
  have steady: "\<forall>(d, l) \<in> set far_future_snapshot. steady_lane (2 ^ 1020) l"
    by (simp add: far_future_snapshot_def far_future_lane_def steady_lane_def valid_lane_def
        valid_vision_def valid_downstream_def nonneg_counts_def moderate_lane_def
        moderate_counts_def busy_lane_def)
  have net: "calculate_net_priorities_f64 far_future_snapshot =
      Returns [(NORTH, 6250 / 9), (SOUTH, 6250 / 9), (EAST, 6250 / 9), (WEST, 6250 / 9)]"
    unfolding net_priorities_f64_exact [OF steady]
    by (simp add: far_future_snapshot_def far_future_lane_def busy_lane_def net_priority_def
        power2_eq_square calculate_local_traffic_score_def weighted_sum_def speed_factor_def
        calculate_downstream_priority_def engine_constants del: power_numeral)
  have found: "lookup far_future_snapshot NORTH = Inr (far_future_lane NORTH)"
    by (simp add: far_future_snapshot_def lookup_def)
  have last: "lastGreenTime (far_future_lane NORTH) = 2 ^ 1020"
    by (simp add: far_future_lane_def del: power_numeral)
  have nine: "(2::real) ^ 9 = 512" by simp
  have "(2::real) ^ 9 \<le> 2 ^ 1020" by (rule power_increasing) simp_all
  then have "(512::real) \<le> 2 ^ 1020" by (simp only: nine)
  then have early: "100 - (2::real) ^ 1020 < RECENT_GREEN_DECAY_WINDOW"
    unfolding RECENT_GREEN_DECAY_WINDOW_def by linarith
  have window: "(100 - (2::real) ^ 1020) / RECENT_GREEN_DECAY_WINDOW = (100 - 2 ^ 1020) / 30"
    by (simp only: RECENT_GREEN_DECAY_WINDOW_def)
  have decay: "apply_recent_green_decay_f64 100 far_future_snapshot
      [(NORTH, 6250 / 9), (SOUTH, 6250 / 9), (EAST, 6250 / 9), (WEST, 6250 / 9)] = Not_finite"
    by (simp only: apply_recent_green_decay_f64.simps found lift_Inr then_do.simps last
        far_future_doubles early if_True window)
  have quiet: "check_emergency far_future_snapshot = None"
    "check_max_wait far_future_snapshot = None"
    by (simp_all add: far_future_snapshot_def far_future_lane_def busy_lane_def MAX_WAIT_TIME_def)
  have "decide_f64 100 101 1 far_future_snapshot = Not_finite"
    by (simp only: decide_f64_def Let_def quiet truthy.simps if_False net then_do.simps decay)
  moreover have "list_all valid_lane (map snd far_future_snapshot)"
    by (simp add: far_future_snapshot_def far_future_lane_def busy_lane_def valid_lane_def
        valid_vision_def valid_downstream_def nonneg_counts_def del: power_numeral)
  ultimately show ?thesis using quiet by blast
qed

text \<open>
  Claim C9, as stated, fails: a snapshot with all four directions whose fields lie in the
  validated ranges, one lane holding \<open>2\<^sup>1\<^sup>0\<^sup>2\<^sup>4\<close> cars, makes \<open>decide\<close> raise
  \<^verbatim>\<open>OverflowError\<close> when the local score converts the count to a double.
\<close>

theorem decide_overflow_counterexample:
  "distinct (map fst astronomic_snapshot) \<and>
   set (map fst astronomic_snapshot) = {NORTH, SOUTH, EAST, WEST} \<and>
   list_all valid_lane (map snd astronomic_snapshot) \<and>
   (1::nat) < length astronomic_snapshot \<and>
   decide_f64 100 101 1 astronomic_snapshot = Raises OverflowError"
proof -
  have "int_times_float (2 ^ 1024) weight_car = Raises OverflowError"
    by (simp only: int_times_float_def float_of_int_overflow then_do.simps)
  then have "calculate_local_traffic_score_f64 (set_car_count (2 ^ 1024) (empty_lane NORTH)) =
      Raises OverflowError"
    by (simp add: calculate_local_traffic_score_f64_def set_car_count_def empty_lane_def
        empty_counts_def del: power_numeral)
  then have "decide_f64 100 101 1 astronomic_snapshot = Raises OverflowError"
    by (simp add: decide_f64_def astronomic_snapshot_def set_car_count_def empty_lane_def
        MAX_WAIT_TIME_def del: power_numeral)
  moreover have "list_all valid_lane (map snd astronomic_snapshot)"
    by (simp add: astronomic_snapshot_def set_car_count_def empty_lane_def empty_counts_def
        valid_lane_def valid_vision_def nonneg_counts_def)
  moreover have "distinct (map fst astronomic_snapshot)"
    "set (map fst astronomic_snapshot) = {NORTH, SOUTH, EAST, WEST}"
    "(1::nat) < length astronomic_snapshot"
    by (simp_all add: astronomic_snapshot_def)
  ultimately show ?thesis by blast
qed

text \<open>
  Claim C9, amended. On a snapshot that holds each of the four directions once, whose
  lanes lie in the validated ranges, whose vehicle counts are at most \<open>2\<^sup>3\<^sup>0\<^sup>0\<close> and whose
  \<open>lastGreenTime\<close> lies within \<open>2\<^sup>3\<^sup>0\<^sup>0\<close> seconds of the current time, \<open>decide\<close> raises
  nothing, every double of the run stays finite, and a decision is returned, whatever
  index the random draw returns. Beyond such bounds the engine can raise.
\<close>

theorem decide_f64_total:
  assumes "distinct (map fst lanes)"
    and "set (map fst lanes) = {NORTH, SOUTH, EAST, WEST}"
    and "\<forall>(d, l) \<in> set lanes. valid_lane l"
    and "\<forall>(d, l) \<in> set lanes. moderate_lane now l"
    and "draw < length lanes"
  shows "\<exists>dec. decide_f64 now stamp draw lanes = Returns dec \<and>
               decide now stamp draw lanes = Inr dec"
proof -
  from assms(3,4) have steady: "\<forall>(d, l) \<in> set lanes. steady_lane now l"
    by (auto simp: steady_lane_def)
  from decide_returns [OF assms(1,5), of now stamp]
  obtain dec where dec: "decide now stamp draw lanes = Inr dec" by blast
  with decide_f64_exact [OF assms(1) steady, of stamp draw]
  have "decide_f64 now stamp draw lanes = Returns dec" by simp
  with dec show ?thesis by blast
qed

theorem decide_f64_total_witness:
  "distinct (map fst congested_snapshot) \<and>
   set (map fst congested_snapshot) = {NORTH, SOUTH, EAST, WEST} \<and>
   list_all valid_lane (map snd congested_snapshot) \<and>
   list_all (moderate_lane 100) (map snd congested_snapshot) \<and>
   (1::nat) < length congested_snapshot \<and>
   (\<exists>dec. decide_f64 100 101 1 congested_snapshot = Returns dec \<and>
          selectedLane dec = SOUTH \<and> decisionConfidence dec = 1)"
proof -
  have keys: "distinct (map fst congested_snapshot)"
    by (simp add: congested_snapshot_def)
  have full: "set (map fst congested_snapshot) = {NORTH, SOUTH, EAST, WEST}"
    by (simp add: congested_snapshot_def)
  have valid: "\<forall>(d, l) \<in> set congested_snapshot. valid_lane l"
    by (simp add: congested_snapshot_def empty_lane_def busy_lane_def empty_counts_def
        valid_lane_def valid_vision_def valid_downstream_def nonneg_counts_def)
  have moderate: "\<forall>(d, l) \<in> set congested_snapshot. moderate_lane 100 l"
    by (simp add: congested_snapshot_def empty_lane_def busy_lane_def empty_counts_def
        moderate_lane_def moderate_counts_def)
  have draw: "(1::nat) < length congested_snapshot"
    by (simp add: congested_snapshot_def)
  have quiet: "check_emergency congested_snapshot = None"
    "check_max_wait congested_snapshot = None"
    by (simp_all add: congested_snapshot_def empty_lane_def busy_lane_def MAX_WAIT_TIME_def)
  from decide_f64_total [OF keys full valid moderate draw, of 101]
  obtain dec where run: "decide_f64 100 101 1 congested_snapshot = Returns dec"
    and exact: "decide 100 101 1 congested_snapshot = Inr dec"
    by blast
  from decide_scoring_path [OF keys quiet draw, of 100 101] exact
  obtain probs p where soft: "softmax [(NORTH, 0), (SOUTH, 6250 / 9), (EAST, 0), (WEST, 0)]
        TEMPERATURE = Inr probs"
    and prob: "lookup probs (fst (congested_snapshot ! 1)) = Inr p"
    and lane: "selectedLane dec = fst (congested_snapshot ! 1)"
    and conf: "decisionConfidence dec = p"
    by (auto simp: congested_priorities)
  from soft have "probs = [(NORTH, 0), (SOUTH, 1), (EAST, 0), (WEST, 0)]"
    by (simp add: congested_probabilities)
  with prob have "p = 1"
    by (simp add: congested_snapshot_def lookup_def)
  with conf have one: "decisionConfidence dec = 1" by simp
  from lane have south: "selectedLane dec = SOUTH"
    by (simp add: congested_snapshot_def)
  from valid have "list_all valid_lane (map snd congested_snapshot)"
    by (simp add: list_all_iff case_prod_beta)
  moreover from moderate have "list_all (moderate_lane 100) (map snd congested_snapshot)"
    by (simp add: list_all_iff case_prod_beta)
  ultimately show ?thesis
    using keys full draw run south one by blast
qed

end
